theory Spec2Isabelle
  imports
    Complex_Main
    "HOL-Library.Char_ord"
    "HOL-Library.List_Lexorder"
    "HOL-Library.Product_Lexorder"
    "HOL-Library.Multiset"
begin

section \<open>The waveform index of obsplus (bank/wavebank.py)\<close>

text \<open>
  A shallow embedding of the index engine of \<^verbatim>\<open>WaveBank\<close>: the rows of the index, the
  wildcard filter, the index read with its cache, the gap and uptime tables, the bulk
  request resolver, the write path and the final polishing of a stream.

  Conventions. A pandas data frame is the list of its rows, a boolean numpy array is a
  \<open>bool list\<close>, a column is the list of the field values. Timestamps are Python floats in the
  source; they are modelled as \<open>real\<close>, so rounding of float arithmetic is not part of the
  model. Exceptions are values of the type \<open>error\<close>, returned on the left of a sum.
\<close>

subsection \<open>Rows of the index\<close>

text \<open>
  \<^verbatim>\<open>index_columns = NSLC + ("starttime", "endtime") + ["path"]\<close>. The four codes are
  strings (the write path asserts that no value is null), the times are floats.
\<close>

record index_row =
  network :: string
  station :: string
  location :: string
  channel :: string
  starttime :: real
  endtime :: real
  path :: string

text \<open>
  The exceptions of the index operations: \<open>ValueError\<close> is raised by \<^verbatim>\<open>read_index\<close> for a
  start time after the end time, \<open>KeyError\<close> by \<^verbatim>\<open>_write_update\<close> for an empty list of
  rows, \<open>IndexingError\<close> stands for the exception with which pandas refuses, in the bulk
  path, a mask over the request frame that is not boolean. Failures of the file system
  and of the HDF5 library are outside the model.
\<close>

datatype error = ValueError | KeyError | IndexingError

subsection \<open>\<^verbatim>\<open>get_regex\<close>: shell patterns\<close>

text \<open>
  \<^verbatim>\<open>get_regex(nslc_str)\<close> is \<^verbatim>\<open>fnmatch.translate(nslc_str)\<close> of the Python standard library,
  and the filter applies it with \<^verbatim>\<open>Series.str.match\<close>, that is \<^verbatim>\<open>re.match\<close>. The regular
  expression that \<^verbatim>\<open>translate\<close> builds is a sequence of the items below, closed by \<^verbatim>\<open>\Z\<close>:
  \<^verbatim>\<open>*\<close> becomes \<^verbatim>\<open>.*\<close>, \<^verbatim>\<open>?\<close> becomes \<^verbatim>\<open>.\<close> (with the flag \<^verbatim>\<open>s\<close>, so any character), a
  bracket expression that is closed becomes a character set (negated after \<^verbatim>\<open>!\<close>), a
  bracket that is never closed is the literal \<^verbatim>\<open>[\<close>, and every other character is escaped
  and stands for itself. The regular expression is represented by the list of its items.
\<close>

datatype regex_item =
    AnyString
  | AnyChar
  | Literal char
  | CharSet bool "(char \<times> char) list"

text \<open>
  The scan for the closing bracket: \<^verbatim>\<open>j\<close> starts after the \<^verbatim>\<open>[\<close>, steps over a leading
  \<^verbatim>\<open>!\<close>, then over a leading \<^verbatim>\<open>]\<close>, then runs to the next \<^verbatim>\<open>]\<close>. \<open>find_close\<close> returns the
  text up to that bracket, \<open>None\<close> when the pattern ends first (\<^verbatim>\<open>j >= n\<close>).
\<close>

fun find_close :: "string \<Rightarrow> string option" where
  "find_close [] = None"
| "find_close (c # cs) =
     (if c = CHR '']'' then Some []
      else map_option (\<lambda>stuff. c # stuff) (find_close cs))"

definition bracket_stuff :: "string \<Rightarrow> string option" where
  "bracket_stuff cs =
     (let bang = takeWhile (\<lambda>c. c = CHR ''!'') (take 1 cs);
          cs1 = drop (length bang) cs;
          brk = takeWhile (\<lambda>c. c = CHR '']'') (take 1 cs1);
          cs2 = drop (length brk) cs1
      in map_option (\<lambda>stuff. bang @ brk @ stuff) (find_close cs2))"

text \<open>
  The members of a character set: \<^verbatim>\<open>a-b\<close> is the range from \<^verbatim>\<open>a\<close> to \<^verbatim>\<open>b\<close> (empty when
  \<^verbatim>\<open>b\<close> is below \<^verbatim>\<open>a\<close>, as in the versions of \<^verbatim>\<open>translate\<close> that drop empty ranges), any
  other character is itself; \<^verbatim>\<open>translate\<close> escapes backslashes and the set operators, so
  they are ordinary members.
\<close>

fun set_items :: "string \<Rightarrow> (char \<times> char) list" where
  "set_items (a # b # c # cs) =
     (if b = CHR ''-'' then (a, c) # set_items cs else (a, a) # set_items (b # c # cs))"
| "set_items (a # cs) = (a, a) # set_items cs"
| "set_items [] = []"

definition char_set :: "string \<Rightarrow> regex_item" where
  "char_set stuff =
     (if take 1 stuff = ''!'' then CharSet True (set_items (drop 1 stuff))
      else CharSet False (set_items stuff))"

text \<open>
  \<^verbatim>\<open>translate\<close> is a loop over the index \<^verbatim>\<open>i\<close>; after a bracket expression \<^verbatim>\<open>i\<close> jumps
  behind the closing bracket. The first argument of \<open>translate_from\<close> is the number of
  characters that the jump still has to pass.
\<close>

fun translate_from :: "nat \<Rightarrow> string \<Rightarrow> regex_item list" where
  "translate_from n [] = []"
| "translate_from (Suc n) (c # cs) = translate_from n cs"
| "translate_from 0 (c # cs) =
     (if c = CHR ''*'' then AnyString # translate_from 0 cs
      else if c = CHR ''?'' then AnyChar # translate_from 0 cs
      else if c = CHR ''['' then
        (case bracket_stuff cs of
           None \<Rightarrow> Literal CHR ''['' # translate_from 0 cs
         | Some stuff \<Rightarrow> char_set stuff # translate_from (Suc (length stuff)) cs)
      else Literal c # translate_from 0 cs)"

definition get_regex :: "string \<Rightarrow> regex_item list" where
  "get_regex nslc_str = translate_from 0 nslc_str"

definition in_char_set :: "(char \<times> char) list \<Rightarrow> char \<Rightarrow> bool" where
  "in_char_set items c = list_ex (\<lambda>(lo, hi). lo \<le> c \<and> c \<le> hi) items"

text \<open>
  \<^verbatim>\<open>re.match\<close> of the translated pattern: the match starts at the first character and,
  because of the closing \<^verbatim>\<open>\Z\<close>, ends at the last one.
\<close>

fun str_match :: "regex_item list \<Rightarrow> string \<Rightarrow> bool" where
  "str_match [] s = (s = [])"
| "str_match (AnyString # ts) [] = str_match ts []"
| "str_match (AnyString # ts) (d # s) =
     (str_match ts (d # s) \<or> str_match (AnyString # ts) s)"
| "str_match (AnyChar # ts) [] = False"
| "str_match (AnyChar # ts) (d # s) = str_match ts s"
| "str_match (Literal c # ts) [] = False"
| "str_match (Literal c # ts) (d # s) = (c = d \<and> str_match ts s)"
| "str_match (CharSet neg items # ts) [] = False"
| "str_match (CharSet neg items # ts) (d # s) =
     (in_char_set items d \<noteq> neg \<and> str_match ts s)"

subsection \<open>\<^verbatim>\<open>filter_index\<close>\<close>

text \<open>
  A query parameter is absent (\<^verbatim>\<open>None\<close>), a string (a pattern) or a sequence of exact codes.
\<close>

datatype code_filter = Absent | Pattern string | OneOf "string list"

definition logical_and :: "bool list \<Rightarrow> bool list \<Rightarrow> bool list" where
  "logical_and xs ys = map2 (\<and>) xs ys"

text \<open>
  One round of the two loops of \<^verbatim>\<open>filter_index\<close>: a string value filters the column with
  its regular expression, a sequence with \<^verbatim>\<open>isin\<close>, an absent value is in neither
  \<^verbatim>\<open>match_query\<close> nor \<^verbatim>\<open>sequence_query\<close> and leaves the mask as it is.
\<close>

definition apply_filter :: "code_filter \<Rightarrow> string list \<Rightarrow> bool list \<Rightarrow> bool list" where
  "apply_filter val col bool_index =
     (case val of
        Absent \<Rightarrow> bool_index
      | Pattern p \<Rightarrow> logical_and bool_index (map (str_match (get_regex p)) col)
      | OneOf vs \<Rightarrow> logical_and bool_index (map (\<lambda>v. v \<in> set vs) col))"

definition in_time :: "real option \<Rightarrow> real option \<Rightarrow> index_row \<Rightarrow> bool" where
  "in_time start end r =
     (\<not> ((case start of None \<Rightarrow> False | Some t1 \<Rightarrow> endtime r < t1)
        \<or> (case end of None \<Rightarrow> False | Some t2 \<Rightarrow> starttime r > t2)))"

definition filter_index ::
  "index_row list \<Rightarrow> code_filter \<Rightarrow> code_filter \<Rightarrow> code_filter \<Rightarrow> code_filter
     \<Rightarrow> real option \<Rightarrow> real option \<Rightarrow> bool list" where
  "filter_index index net sta loc chan start end =
     (let bool_index = replicate (length index) True;
          bool_index = apply_filter net (map network index) bool_index;
          bool_index = apply_filter sta (map station index) bool_index;
          bool_index = apply_filter loc (map location index) bool_index;
          bool_index = apply_filter chan (map channel index) bool_index
      in if start \<noteq> None \<or> end \<noteq> None
         then logical_and bool_index (map (in_time start end) index)
         else bool_index)"

text \<open>\<^verbatim>\<open>index[filt]\<close>: the rows at which the mask is true.\<close>

definition select_rows :: "'a list \<Rightarrow> bool list \<Rightarrow> 'a list" where
  "select_rows rows filt = map fst (filter snd (zip rows filt))"

subsection \<open>The bank and its index store\<close>

text \<open>
  The state of a bank, as far as the index is concerned:
  \<^item> \<open>index_store\<close>: the table of rows in the HDF5 file, \<open>None\<close> while the file does not
    exist (\<^verbatim>\<open>os.path.exists(self.index_path)\<close> is false);
  \<^item> \<open>pending\<close>: what \<^verbatim>\<open>summarize_wave_file\<close> returns for each file that
    \<^verbatim>\<open>_unindexed_file_iterator\<close> yields, one list of rows per file (both functions are outside
    wavebank.py, so their results are part of the state); the codes are the values after
    \<^verbatim>\<open>astype(str)\<close>;
  \<^item> \<open>index_cache\<close> and \<open>cache_size\<close>: the entries of \<^verbatim>\<open>_IndexCache\<close>, oldest first;
  \<^item> \<open>store_log\<close>: the accesses to the index file that wavebank.py makes, latest last.
  The metadata table and the time stamp of the store, the version check and the progress
  bar of \<^verbatim>\<open>update_index\<close> are not modelled. The keyword arguments that \<^verbatim>\<open>read_index\<close>
  passes on to the cache are, in wavebank.py, either none or
  \<^verbatim>\<open>columns=self.columns_no_path\<close>; they are the type \<open>columns\<close>.
\<close>

datatype columns = AllColumns | ColumnsNoPath

datatype store_event = Exists | ReadStore | AppendStore

type_synonym cache_key = "real option \<times> real option \<times> real \<times> columns"

record bank =
  bank_path :: string
  index_store :: "index_row list option"
  pending :: "index_row list list"
  cache_size :: nat
  index_cache :: "(cache_key \<times> index_row list) list"
  store_log :: "store_event list"

definition buffer :: real where
  "buffer = 10.111"

definition log_access :: "store_event \<Rightarrow> bank \<Rightarrow> bank" where
  "log_access ev b = b\<lparr>store_log := store_log b @ [ev]\<rparr>"

subsection \<open>\<^verbatim>\<open>_write_update\<close> and \<^verbatim>\<open>update_index\<close>\<close>

text \<open>
  \<^verbatim>\<open>Series.str.replace(old, new)\<close>: every occurrence of \<open>old\<close>, found from the left and not
  overlapping, is replaced. For the one-character patterns \<^verbatim>\<open>"b"\<close> and \<^verbatim>\<open>"'"\<close> pandas
  replaces literally. The bank path is longer than one character and pandas reads it as a
  regular expression; the model replaces it literally too. The first argument of
  \<open>replace_from\<close> counts the characters of a replaced occurrence that are still to be
  passed. An empty \<open>old\<close> does not occur in the source; the model leaves the string as it is.
\<close>

fun replace_from :: "nat \<Rightarrow> string \<Rightarrow> string \<Rightarrow> string \<Rightarrow> string" where
  "replace_from n old new [] = []"
| "replace_from (Suc n) old new (c # cs) = replace_from n old new cs"
| "replace_from 0 old new (c # cs) =
     (if old \<noteq> [] \<and> take (length old) (c # cs) = old
      then new @ replace_from (length old - 1) old new cs
      else c # replace_from 0 old new cs)"

definition str_replace :: "string \<Rightarrow> string \<Rightarrow> string \<Rightarrow> string" where
  "str_replace old new s = replace_from 0 old new s"

text \<open>
  The loop over \<^verbatim>\<open>index_str\<close>:
  \<^verbatim>\<open>df[str_index] = sser.str.replace("b", "").str.replace("'", "")\<close>.
\<close>

definition clean_code :: "string \<Rightarrow> string" where
  "clean_code sser = str_replace [CHR 0x27] [] (str_replace ''b'' [] sser)"

definition clean_row :: "string \<Rightarrow> index_row \<Rightarrow> index_row" where
  "clean_row bpath r =
     r\<lparr>path := str_replace bpath [] (path r),
       network := clean_code (network r),
       station := clean_code (station r),
       location := clean_code (location r),
       channel := clean_code (channel r)\<rparr>"

text \<open>
  \<^verbatim>\<open>_write_update(updates)\<close>. A data frame made from an empty list has no column
  \<^verbatim>\<open>"path"\<close>, so \<^verbatim>\<open>df["path"]\<close> raises \<^verbatim>\<open>KeyError\<close> before the store is opened. Otherwise the
  cleaned rows are appended to the table of the store, which is created when absent. The
  widths of the string columns of an existing table (\<^verbatim>\<open>min_itemsize\<close>), which make the HDF5
  library refuse a longer string, are not part of the model.
\<close>

definition write_update :: "bank \<Rightarrow> index_row list \<Rightarrow> error option \<times> bank" where
  "write_update b updates =
     (if updates = [] then (Some KeyError, b)
      else
        let df = map (clean_row (bank_path b)) updates;
            b1 = log_access AppendStore b;
            nrows = (case index_store b1 of None \<Rightarrow> [] | Some old \<Rightarrow> old)
        in (None, b1\<lparr>index_store := Some (nrows @ df)\<rparr>))"

text \<open>
  \<^verbatim>\<open>update_index\<close>: the summaries of the files not yet indexed are collected; when there is
  at least one such file, the flattened list is written and the cache is cleared. After a
  successful write the store carries a new time stamp, so no file is pending any more.
\<close>

definition update_index :: "bank \<Rightarrow> error option \<times> bank" where
  "update_index b =
     (let updates = pending b
      in if length updates \<noteq> 0
         then (case write_update b (concat updates) of
                 (Some e, b1) \<Rightarrow> (Some e, b1)
               | (None, b1) \<Rightarrow> (None, b1\<lparr>index_cache := [], pending := []\<rparr>))
         else (None, b))"

subsection \<open>The index cache\<close>

text \<open>
  Modelled from the spec: the class \<^verbatim>\<open>_IndexCache\<close> (obsplus/bank/utils.py) and the read of
  the store behind it are defined outside wavebank.py. The spec: the store returns the rows
  that overlap the range, by the test \<^verbatim>\<open>NOT (row.end < start OR row.start > end)\<close>, and an
  empty result when the store file does not exist. The cache returns the cached copy on a
  hit; on a miss it computes the padded range \<^verbatim>\<open>[start-buffer, end+buffer]\<close> (unbounded where
  a bound is absent), reads from the store, stores the result under the exact requested
  parameters and evicts the oldest entry if the capacity is exceeded. The extra keyword
  arguments are the selection of columns; a frame read without the path column is
  modelled by rows whose path is empty.
\<close>

definition overlaps :: "real option \<Rightarrow> real option \<Rightarrow> index_row \<Rightarrow> bool" where
  "overlaps start end r =
     (\<not> ((case start of None \<Rightarrow> False | Some t1 \<Rightarrow> endtime r < t1)
        \<or> (case end of None \<Rightarrow> False | Some t2 \<Rightarrow> starttime r > t2)))"

definition select_columns :: "columns \<Rightarrow> index_row \<Rightarrow> index_row" where
  "select_columns cols r = (case cols of AllColumns \<Rightarrow> r | ColumnsNoPath \<Rightarrow> r\<lparr>path := []\<rparr>)"

definition read_range ::
  "index_row list option \<Rightarrow> real option \<Rightarrow> real option \<Rightarrow> columns \<Rightarrow> index_row list" where
  "read_range store start end cols =
     (case store of
        None \<Rightarrow> []
      | Some rows \<Rightarrow> map (select_columns cols) (filter (overlaps start end) rows))"

definition padded_read :: "index_row list option \<Rightarrow> cache_key \<Rightarrow> index_row list" where
  "padded_read store key =
     (case key of (start, end, buf, cols) \<Rightarrow>
        read_range store (map_option (\<lambda>t. t - buf) start) (map_option (\<lambda>t. t + buf) end) cols)"

definition cache_call ::
  "bank \<Rightarrow> real option \<Rightarrow> real option \<Rightarrow> real \<Rightarrow> columns \<Rightarrow> index_row list \<times> bank" where
  "cache_call b start end buf cols =
     (let key = (start, end, buf, cols)
      in case map_of (index_cache b) key of
           Some rows \<Rightarrow> (rows, b)
         | None \<Rightarrow>
             let b1 = log_access ReadStore b;
                 rows = padded_read (index_store b1) key;
                 entries = index_cache b1 @ [(key, rows)];
                 entries = (if length entries > cache_size b1 then tl entries else entries)
             in (rows, b1\<lparr>index_cache := entries\<rparr>))"

subsection \<open>\<^verbatim>\<open>read_index\<close>\<close>

definition read_index ::
  "bank \<Rightarrow> code_filter \<Rightarrow> code_filter \<Rightarrow> code_filter \<Rightarrow> code_filter
     \<Rightarrow> real option \<Rightarrow> real option \<Rightarrow> columns \<Rightarrow> (error + index_row list) \<times> bank" where
  "read_index b net sta loc chan start end cols =
     (if start \<noteq> None \<and> end \<noteq> None \<and> the start > the end
      then (Inl ValueError, b)
      else
        let b0 = log_access Exists b;
            (err, b1) = (if index_store b0 = None then update_index b0 else (None, b0))
        in case err of
             Some e \<Rightarrow> (Inl e, b1)
           | None \<Rightarrow>
               let b2 = log_access Exists b1
               in if index_store b2 = None then (Inr [], b2)
                  else
                    let (index, b3) = cache_call b2 start end buffer cols;
                        filt = filter_index index net sta loc chan None None
                    in (Inr (select_rows index filt), b3))"

subsection \<open>Reference definitions\<close>

text \<open>
  The shell-style wildcard match as the specification words it, on the pattern itself:
  \<^verbatim>\<open>*\<close> stands for any sequence of characters, \<^verbatim>\<open>?\<close> for any one character, \<^verbatim>\<open>[...]\<close> for
  one character of the class, every other character for itself, and the pattern has to
  use up the whole value.

  A bracket expression, read from the text \<open>p\<close> behind the opening bracket: a leading
  \<^verbatim>\<open>!\<close> negates the class; the character after it belongs to the class whatever it is;
  the class ends at the first \<^verbatim>\<open>]\<close> behind that character, and without such a bracket
  there is no class and the opening bracket stands for itself. In the class \<^verbatim>\<open>a-b\<close> stands
  for the characters from \<^verbatim>\<open>a\<close> to \<^verbatim>\<open>b\<close>.
\<close>

definition class_negated :: "string \<Rightarrow> bool" where
  "class_negated p = (p \<noteq> [] \<and> hd p = CHR ''!'')"

definition class_start :: "string \<Rightarrow> string" where
  "class_start p = (if class_negated p then tl p else p)"

definition class_closed :: "string \<Rightarrow> bool" where
  "class_closed p = (class_start p \<noteq> [] \<and> CHR '']'' \<in> set (tl (class_start p)))"

definition class_chars :: "string \<Rightarrow> string" where
  "class_chars p = hd (class_start p) # takeWhile (\<lambda>c. c \<noteq> CHR '']'') (tl (class_start p))"

definition class_length :: "string \<Rightarrow> nat" where
  "class_length p = (if class_negated p then 1 else 0) + length (class_chars p) + 1"

fun in_class :: "string \<Rightarrow> char \<Rightarrow> bool" where
  "in_class (lo # dash # hi # cs) c =
     (if dash = CHR ''-'' then (of_char lo \<le> (of_char c :: nat) \<and> (of_char c :: nat) \<le> of_char hi)
                              \<or> in_class cs c
      else lo = c \<or> in_class (dash # hi # cs) c)"
| "in_class (x # cs) c = (x = c \<or> in_class cs c)"
| "in_class [] c = False"

text \<open>
  The first argument of \<open>shell_match_from\<close> counts the characters of a bracket expression
  that are still to be passed.
\<close>

fun shell_match_from :: "nat \<Rightarrow> string \<Rightarrow> string \<Rightarrow> bool" where
  "shell_match_from n [] v = (v = [])"
| "shell_match_from (Suc n) (c # p) v = shell_match_from n p v"
| "shell_match_from 0 (c # p) v =
     (if c = CHR ''*'' then list_ex (\<lambda>k. shell_match_from 0 p (drop k v)) [0..<Suc (length v)]
      else if c = CHR ''?'' then v \<noteq> [] \<and> shell_match_from 0 p (tl v)
      else if c = CHR ''['' \<and> class_closed p then
        v \<noteq> [] \<and> (in_class (class_chars p) (hd v) \<noteq> class_negated p)
        \<and> shell_match_from (class_length p) p (tl v)
      else v \<noteq> [] \<and> hd v = c \<and> shell_match_from 0 p (tl v))"

definition shell_match :: "string \<Rightarrow> string \<Rightarrow> bool" where
  "shell_match p v = shell_match_from 0 p v"

text \<open>What one query parameter asks of one field value, and the four together of a row.\<close>

definition code_pass :: "code_filter \<Rightarrow> string \<Rightarrow> bool" where
  "code_pass val v =
     (case val of
        Absent \<Rightarrow> True
      | Pattern p \<Rightarrow> shell_match p v
      | OneOf vs \<Rightarrow> v \<in> set vs)"

definition row_pass ::
  "code_filter \<Rightarrow> code_filter \<Rightarrow> code_filter \<Rightarrow> code_filter \<Rightarrow> index_row \<Rightarrow> bool" where
  "row_pass net sta loc chan r =
     (code_pass net (network r) \<and> code_pass sta (station r)
      \<and> code_pass loc (location r) \<and> code_pass chan (channel r))"

text \<open>
  The state of the index cache is sound when every entry holds what the store returns for
  the padded range of its key. A bank starts with an empty cache (\<open>init_bank\<close>, after
  \<^verbatim>\<open>__init__\<close>), and the operations keep the cache sound.
\<close>

definition cache_ok :: "bank \<Rightarrow> bool" where
  "cache_ok b = list_all (\<lambda>(key, rows). rows = padded_read (index_store b) key) (index_cache b)"

definition init_bank :: "string \<Rightarrow> nat \<Rightarrow> index_row list option \<Rightarrow> index_row list list \<Rightarrow> bank" where
  "init_bank base_path csize store files =
     \<lparr>bank_path = base_path, index_store = store, pending = files, cache_size = csize,
      index_cache = [], store_log = []\<rparr>"

text \<open>
  The table that a query sees: the table of the store, or, while the store does not exist,
  the table that the update on demand writes from the pending files.
\<close>

definition index_table :: "bank \<Rightarrow> index_row list" where
  "index_table b =
     (case index_store b of
        Some rows \<Rightarrow> rows
      | None \<Rightarrow> map (clean_row (bank_path b)) (concat (pending b)))"

definition mk_row ::
  "string \<Rightarrow> string \<Rightarrow> string \<Rightarrow> string \<Rightarrow> real \<Rightarrow> real \<Rightarrow> string \<Rightarrow> index_row" where
  "mk_row net sta loc chan t1 t2 p =
     \<lparr>network = net, station = sta, location = loc, channel = chan,
      starttime = t1, endtime = t2, path = p\<rparr>"

subsection \<open>Availability, gaps and uptime\<close>

text \<open>
  The tables derived from the index keep the four code columns together as the key of
  the \<^verbatim>\<open>groupby(list(NSLC))\<close>. pandas visits the groups in the sorted order of their keys
  and keeps the order of the rows inside a group.
\<close>

type_synonym nslc = "string \<times> string \<times> string \<times> string"

record availability_row =
  av_seed :: nslc
  av_starttime :: real
  av_endtime :: real

record gap_row =
  gap_seed :: nslc
  gap_starttime :: real
  gap_endtime :: real
  gap_duration :: real

record uptime_row =
  up_seed :: nslc
  up_starttime :: real
  up_endtime :: real
  duration :: real
  up_gap_duration :: real
  uptime :: real
  availability :: real

definition nslc_key :: "index_row \<Rightarrow> nslc" where
  "nslc_key r = (network r, station r, location r, channel r)"

definition groupby :: "('a \<Rightarrow> nslc) \<Rightarrow> 'a list \<Rightarrow> (nslc \<times> 'a list) list" where
  "groupby key df = map (\<lambda>k. (k, filter (\<lambda>r. key r = k) df)) (sort (remdups (map key df)))"

text \<open>\<^verbatim>\<open>min\<close> and \<^verbatim>\<open>max\<close> of a column; they are only applied to columns that are not empty.\<close>

definition list_min :: "real list \<Rightarrow> real" where
  "list_min xs = fold min (tl xs) (hd xs)"

definition list_max :: "real list \<Rightarrow> real" where
  "list_max xs = fold max (tl xs) (hd xs)"

definition get_availability_df ::
  "bank \<Rightarrow> code_filter \<Rightarrow> code_filter \<Rightarrow> code_filter \<Rightarrow> code_filter
     \<Rightarrow> real option \<Rightarrow> real option \<Rightarrow> (error + availability_row list) \<times> bank" where
  "get_availability_df b net sta loc chan start end =
     (case read_index b net sta loc chan start end ColumnsNoPath of
        (Inl e, b1) \<Rightarrow> (Inl e, b1)
      | (Inr ind, b1) \<Rightarrow>
          (Inr (map (\<lambda>(k, gro).
                  \<lparr>av_seed = k,
                   av_starttime = list_min (map starttime gro),
                   av_endtime = list_max (map endtime gro)\<rparr>)
                (groupby nslc_key ind)), b1))"

text \<open>
  \<^verbatim>\<open>_get_gap_dfs\<close>: the group is sorted by start and end time; a row is followed by a gap
  when its end time plus \<^verbatim>\<open>min_gap\<close> is below the start time of the next row (the shifted
  column); the last row has no next row, and the comparison with the missing value is
  false.
\<close>

fun gaps_between :: "real \<Rightarrow> index_row list \<Rightarrow> gap_row list" where
  "gaps_between min_gap (r # next # dd) =
     (if endtime r + min_gap < starttime next
      then [\<lparr>gap_seed = nslc_key r, gap_starttime = endtime r, gap_endtime = starttime next,
             gap_duration = starttime next - endtime r\<rparr>]
      else [])
     @ gaps_between min_gap (next # dd)"
| "gaps_between min_gap [r] = []"
| "gaps_between min_gap [] = []"

definition get_gap_dfs :: "index_row list \<Rightarrow> real \<Rightarrow> gap_row list" where
  "get_gap_dfs df min_gap =
     (let dd = sort_key (\<lambda>r. (starttime r, endtime r)) df
      in gaps_between min_gap dd)"

definition get_gaps_df ::
  "bank \<Rightarrow> code_filter \<Rightarrow> code_filter \<Rightarrow> code_filter \<Rightarrow> code_filter
     \<Rightarrow> real option \<Rightarrow> real option \<Rightarrow> real \<Rightarrow> (error + gap_row list) \<times> bank" where
  "get_gaps_df b net sta loc chan start end min_gap =
     (case read_index b net sta loc chan start end ColumnsNoPath of
        (Inl e, b1) \<Rightarrow> (Inl e, b1)
      | (Inr index, b1) \<Rightarrow>
          (let out = concat (map (\<lambda>(k, df). get_gap_dfs df min_gap) (groupby nslc_key index))
           in (Inr (if out = [] then [] else out), b1)))"

text \<open>
  \<^verbatim>\<open>get_uptime_df\<close>. The gaps are read with the default \<^verbatim>\<open>min_gap=1.0\<close>. \<^verbatim>\<open>pd.merge\<close> joins the
  two tables on the four code columns and keeps the keys that both have. The division is
  the one of the reals, where the source divides floats (and gets a missing or infinite
  value for a duration of zero).
\<close>

definition merge_uptime ::
  "(availability_row \<times> real) list \<Rightarrow> (nslc \<times> real) list \<Rightarrow> uptime_row list" where
  "merge_uptime avail gap_total_df =
     concat (map (\<lambda>(a, dur).
        map (\<lambda>(k, gap).
               \<lparr>up_seed = av_seed a, up_starttime = av_starttime a, up_endtime = av_endtime a,
                duration = dur, up_gap_duration = gap, uptime = dur - gap,
                availability = (dur - gap) / dur\<rparr>)
            (filter (\<lambda>(k, gap). k = av_seed a) gap_total_df))
        avail)"

definition get_uptime_df ::
  "bank \<Rightarrow> code_filter \<Rightarrow> code_filter \<Rightarrow> code_filter \<Rightarrow> code_filter
     \<Rightarrow> real option \<Rightarrow> real option \<Rightarrow> (error + uptime_row list) \<times> bank" where
  "get_uptime_df b net sta loc chan start end =
     (case get_availability_df b net sta loc chan start end of
        (Inl e, b1) \<Rightarrow> (Inl e, b1)
      | (Inr av, b1) \<Rightarrow>
          (let avail = map (\<lambda>a. (a, av_endtime a - av_starttime a)) av
           in case get_gaps_df b1 net sta loc chan start end 1.0 of
                (Inl e, b2) \<Rightarrow> (Inl e, b2)
              | (Inr gaps_df, b2) \<Rightarrow>
                  (let gap_total_df =
                         (if gaps_df \<noteq> []
                          then map (\<lambda>(k, g). (k, sum_list (map gap_duration g)))
                                 (groupby gap_seed gaps_df)
                          else map (\<lambda>(a, dur). (av_seed a, 0)) avail)
                   in (Inr (merge_uptime avail gap_total_df), b2))))"

subsection \<open>Streams and the waveform library\<close>

text \<open>
  The traces and the operations on streams belong to obspy. A stream is the list of its
  traces; the operations that wavebank.py calls are the fields of \<open>obspy\<close>: the identifier
  and the time span of a trace, \<^verbatim>\<open>Stream.trim\<close>, \<^verbatim>\<open>Stream.attach_response\<close> with the
  inventory of the bank, \<^verbatim>\<open>Stream.merge(method=1)\<close> (\<open>None\<close> when obspy raises),
  \<^verbatim>\<open>Stream.sort\<close>, and \<^verbatim>\<open>try_read_stream\<close> (\<open>None\<close> when the file cannot be read).
\<close>

record 'tr obspy =
  tr_id :: "'tr \<Rightarrow> string"
  tr_starttime :: "'tr \<Rightarrow> real"
  tr_endtime :: "'tr \<Rightarrow> real"
  trim :: "real \<Rightarrow> real \<Rightarrow> 'tr list \<Rightarrow> 'tr list"
  attach_response :: "'tr list \<Rightarrow> 'tr list"
  merge_stream :: "'tr list \<Rightarrow> 'tr list option"
  sort_stream :: "'tr list \<Rightarrow> 'tr list"
  try_read_stream :: "string \<Rightarrow> 'tr list option"

text \<open>
  The time bounds that the retrieval operations hand to \<^verbatim>\<open>_index2stream\<close> and
  \<^verbatim>\<open>_polish_stream\<close> are floats (the bulk path and \<^verbatim>\<open>yield_waveforms\<close> pass floats) or
  \<^verbatim>\<open>UTCDateTime\<close> objects (\<^verbatim>\<open>get_waveforms\<close> and \<^verbatim>\<open>get_waveforms_by_seed\<close> pass on what the
  caller gave). Both stand for a point in time, \<open>timestamp\<close>, which is what
  \<^verbatim>\<open>obspy.UTCDateTime(starttime)\<close> and the comparisons of \<^verbatim>\<open>read_index\<close> use.
\<close>

datatype time_bound = Float real | UTCDateTime real

fun timestamp :: "time_bound \<Rightarrow> real" where
  "timestamp (Float t) = t"
| "timestamp (UTCDateTime t) = t"

text \<open>
  \<^verbatim>\<open>starttime or min(...)\<close>: Python takes the right operand when the left one is false.
  \<^verbatim>\<open>None\<close> and the float \<^verbatim>\<open>0.0\<close> are false; a \<^verbatim>\<open>UTCDateTime\<close> object defines neither
  \<^verbatim>\<open>__bool__\<close> nor \<^verbatim>\<open>__len__\<close> and is true at every time.
\<close>

fun truthy :: "time_bound option \<Rightarrow> bool" where
  "truthy None = False"
| "truthy (Some (Float t)) = (t \<noteq> 0)"
| "truthy (Some (UTCDateTime t)) = True"

definition polish_stream ::
  "'tr obspy \<Rightarrow> 'tr list \<Rightarrow> time_bound option \<Rightarrow> time_bound option \<Rightarrow> bool \<Rightarrow> 'tr list" where
  "polish_stream ops st start end attach =
     (if length st = 0 then st
      else
        let t1 = (if truthy start then timestamp (the start)
                  else list_min (map (tr_starttime ops) st));
            t2 = (if truthy end then timestamp (the end)
                  else list_max (map (tr_endtime ops) st));
            st = trim ops t1 t2 st;
            st = (if attach then attach_response ops st else st);
            st = (case merge_stream ops st of Some merged \<Rightarrow> merged | None \<Rightarrow> st)
        in sort_stream ops st)"

definition seed_id :: "index_row \<Rightarrow> string" where
  "seed_id r = network r @ ''.'' @ station r @ ''.'' @ location r @ ''.'' @ channel r"

definition index2stream ::
  "'tr obspy \<Rightarrow> string \<Rightarrow> index_row list \<Rightarrow> time_bound option \<Rightarrow> time_bound option
     \<Rightarrow> bool \<Rightarrow> 'tr list" where
  "index2stream ops bpath index start end attach =
     (let files = remdups (map (\<lambda>r. bpath @ path r) index);
          stt = concat (map (\<lambda>x. case try_read_stream ops x of Some st \<Rightarrow> st | None \<Rightarrow> []) files);
          nslc = set (map seed_id index);
          stt = filter (\<lambda>x. tr_id ops x \<in> nslc) stt
      in polish_stream ops stt start end attach)"

definition get_waveforms ::
  "'tr obspy \<Rightarrow> bank \<Rightarrow> code_filter \<Rightarrow> code_filter \<Rightarrow> code_filter \<Rightarrow> code_filter
     \<Rightarrow> time_bound option \<Rightarrow> time_bound option \<Rightarrow> bool \<Rightarrow> (error + 'tr list) \<times> bank" where
  "get_waveforms ops b net sta loc chan start end attach =
     (case read_index b net sta loc chan (map_option timestamp start) (map_option timestamp end)
             AllColumns of
        (Inl e, b1) \<Rightarrow> (Inl e, b1)
      | (Inr index, b1) \<Rightarrow> (Inr (index2stream ops (bank_path b1) index start end attach), b1))"

subsection \<open>\<^verbatim>\<open>get_waveforms_bulk\<close>\<close>

text \<open>
  A bulk request is a tuple (network, station, location, channel, starttime, endtime);
  the two times are the floats \<^verbatim>\<open>t1\<close> and \<^verbatim>\<open>t2\<close> of the request frame. A code is a string
  or \<^verbatim>\<open>None\<close>.
\<close>

record bulk_request =
  req_network :: "string option"
  req_station :: "string option"
  req_location :: "string option"
  req_channel :: "string option"
  req_t1 :: real
  req_t2 :: real

definition match_chars :: "char list" where
  "match_chars = ''*?[]''"

text \<open>
  \<^verbatim>\<open>_column_contains\<close>: \<^verbatim>\<open>Series.str.contains\<close> gives true or false for a string and a
  missing value for \<^verbatim>\<open>None\<close>.
\<close>

definition column_contains :: "string option list \<Rightarrow> char list \<Rightarrow> bool option list" where
  "column_contains ser str_sequence =
     map (map_option (\<lambda>v. list_ex (\<lambda>c. c \<in> set str_sequence) v)) ser"

text \<open>
  \<^verbatim>\<open>_get_nslc\<close>: in each of the four columns \<^verbatim>\<open>None\<close> and \<^verbatim>\<open>"--"\<close> are replaced by the empty
  string, then the columns are joined with dots. A frame is given by its four code columns.
\<close>

definition replace_empty :: "string option \<Rightarrow> string" where
  "replace_empty v = (case v of None \<Rightarrow> [] | Some s \<Rightarrow> if s = ''--'' then [] else s)"

definition get_nslc ::
  "(string option \<times> string option \<times> string option \<times> string option) list \<Rightarrow> string list" where
  "get_nslc df =
     map (\<lambda>(n, s, l, c).
            replace_empty n @ ''.'' @ replace_empty s @ ''.'' @ replace_empty l @ ''.''
            @ replace_empty c) df"

definition index_codes ::
  "index_row list \<Rightarrow> (string option \<times> string option \<times> string option \<times> string option) list" where
  "index_codes index =
     map (\<lambda>r. (Some (network r), Some (station r), Some (location r), Some (channel r))) index"

definition bulk_codes ::
  "bulk_request list \<Rightarrow> (string option \<times> string option \<times> string option \<times> string option) list" where
  "bulk_codes df = map (\<lambda>q. (req_network q, req_station q, req_location q, req_channel q)) df"

definition any_axis0 :: "nat \<Rightarrow> bool list list \<Rightarrow> bool list" where
  "any_axis0 n rows = fold (map2 (\<or>)) rows (replicate n False)"

text \<open>
  \<^verbatim>\<open>match_ar = np.array(uses_matches).any(axis=0)\<close> and its use as a mask in
  \<^verbatim>\<open>df[match_ar]\<close> and \<^verbatim>\<open>df[~match_ar]\<close>. With a missing value among the entries the array
  holds objects; then either the mask holds a missing value and \<^verbatim>\<open>df[match_ar]\<close> raises, or
  the negation of the objects is no boolean mask and \<^verbatim>\<open>df[~match_ar]\<close> raises.
\<close>

definition request_mask :: "nat \<Rightarrow> bool option list list \<Rightarrow> error + bool list" where
  "request_mask n uses_matches =
     (if list_all (list_all (\<lambda>x. x \<noteq> None)) uses_matches
      then Inr (any_axis0 n (map (map the) uses_matches))
      else Inl IndexingError)"

text \<open>
  An argument of \<^verbatim>\<open>filter_index\<close> taken from a request: a string is a pattern, \<^verbatim>\<open>None\<close> is
  an absent filter.
\<close>

definition code_filter_of :: "string option \<Rightarrow> code_filter" where
  "code_filter_of v = (case v of None \<Rightarrow> Absent | Some s \<Rightarrow> Pattern s)"

text \<open>
  The inner function \<^verbatim>\<open>_func(time, ind, df)\<close> up to its last line: \<open>bulk_rows\<close> is the frame
  \<^verbatim>\<open>ind[ar]\<close> that is handed to \<^verbatim>\<open>_index2stream\<close>.
\<close>

definition bulk_rows ::
  "real \<times> real \<Rightarrow> index_row list \<Rightarrow> bulk_request list \<Rightarrow> error + index_row list" where
  "bulk_rows time ind df =
     (let ar = replicate (length ind) True;
          df = filter (\<lambda>q. req_t1 q = fst time \<and> req_t2 q = snd time) df;
          uses_matches =
            [column_contains (map req_network df) match_chars,
             column_contains (map req_station df) match_chars,
             column_contains (map req_location df) match_chars,
             column_contains (map req_channel df) match_chars]
      in case request_mask (length df) uses_matches of
           Inl e \<Rightarrow> Inl e
         | Inr match_ar \<Rightarrow>
             (let df_match = select_rows df match_ar;
                  df_no_match = select_rows df (map Not match_ar);
                  ar = (if df_match \<noteq> []
                        then
                          let mar = map (\<lambda>q. filter_index ind (code_filter_of (req_network q))
                                           (code_filter_of (req_station q))
                                           (code_filter_of (req_location q))
                                           (code_filter_of (req_channel q)) None None) df_match
                          in logical_and ar (any_axis0 (length ind) mar)
                        else ar);
                  ar = (if df_no_match \<noteq> []
                        then
                          let nslc1 = set (get_nslc (bulk_codes df_no_match));
                              nslc2 = get_nslc (index_codes ind)
                          in logical_and ar (map (\<lambda>v. v \<in> nslc1) nslc2)
                        else ar)
              in Inr (select_rows ind ar)))"

text \<open>
  \<^verbatim>\<open>[_func(time, df=df, ind=ind) for time in unique_times]\<close>: the first exception ends the
  comprehension.
\<close>

fun collect :: "(error + 'a) list \<Rightarrow> error + 'a list" where
  "collect [] = Inr []"
| "collect (Inl e # xs) = Inl e"
| "collect (Inr x # xs) = (case collect xs of Inl e \<Rightarrow> Inl e | Inr ys \<Rightarrow> Inr (x # ys))"

text \<open>
  The part of \<^verbatim>\<open>get_waveforms_bulk\<close> that resolves a list of requests that is not empty:
  the index is read (or the given one is cut to the time span of all requests), and for
  each distinct pair of times, in sorted order, the rows are selected. The result lists,
  per pair of times, the arguments of \<^verbatim>\<open>_index2stream\<close>.
\<close>

definition bulk_selection ::
  "bank \<Rightarrow> bulk_request list \<Rightarrow> index_row list option
     \<Rightarrow> (error + (index_row list \<times> real \<times> real) list) \<times> bank" where
  "bulk_selection b bulk index =
     (let t1 = list_min (map req_t1 bulk);
          t2 = list_max (map req_t2 bulk);
          (res, b1) =
            (case index of
               Some index \<Rightarrow>
                 (Inr (filter (\<lambda>r. \<not> (starttime r > t2 \<or> endtime r < t1)) index), b)
             | None \<Rightarrow> read_index b Absent Absent Absent Absent (Some t1) (Some t2) AllColumns)
      in case res of
           Inl e \<Rightarrow> (Inl e, b1)
         | Inr ind \<Rightarrow>
             (let unique_times = sort (remdups (map (\<lambda>q. (req_t1 q, req_t2 q)) bulk))
              in (collect (map (\<lambda>time. map_sum id (\<lambda>rows. (rows, fst time, snd time))
                                          (bulk_rows time ind bulk)) unique_times),
                  b1)))"

definition get_waveforms_bulk ::
  "'tr obspy \<Rightarrow> bank \<Rightarrow> bulk_request list \<Rightarrow> index_row list option
     \<Rightarrow> (error + 'tr list) \<times> bank" where
  "get_waveforms_bulk ops b bulk index =
     (if bulk = [] then (Inr [], b)
      else
        case bulk_selection b bulk index of
          (Inl e, b1) \<Rightarrow> (Inl e, b1)
        | (Inr groups, b1) \<Rightarrow>
            (Inr (concat (map (\<lambda>(rows, t1, t2).
                     index2stream ops (bank_path b1) rows (Some (Float t1)) (Some (Float t2)) False)
                     groups)),
             b1))"

subsection \<open>\<^verbatim>\<open>put_waveforms\<close>\<close>

text \<open>
  The waveform files of the bank are a map from paths to streams. \<open>route\<close> is the path
  that \<^verbatim>\<open>summarize_trace\<close> and \<^verbatim>\<open>os.path.join\<close> compute for a trace. \<^verbatim>\<open>st_dic\<close> is a
  dictionary in the order of insertion; \<open>dict_append\<close> is \<^verbatim>\<open>st_dic[path].append(tr)\<close>.
\<close>

fun dict_append :: "(string \<times> 'tr list) list \<Rightarrow> string \<Rightarrow> 'tr \<Rightarrow> (string \<times> 'tr list) list" where
  "dict_append [] p tr = [(p, [tr])]"
| "dict_append ((q, trs) # d) p tr =
     (if q = p then (q, trs @ [tr]) # d else (q, trs) # dict_append d p tr)"

definition group_by_path :: "('tr \<Rightarrow> string) \<Rightarrow> 'tr list \<Rightarrow> (string \<times> 'tr list) list" where
  "group_by_path route stream = fold (\<lambda>tr st_dic. dict_append st_dic (route tr) tr) stream []"

text \<open>
  The loop over the paths: the new traces, followed by the content of the file when it
  exists, are merged and written. An exception of the merge ends the loop; the files
  written before stay written. Reading the existing file and writing the merged stream
  succeed in the model; where obspy fails to write, the file keeps its content.
\<close>

datatype put_error = MergeError

fun write_paths ::
  "'tr obspy \<Rightarrow> (string \<times> 'tr list) list \<Rightarrow> (string \<rightharpoonup> 'tr list)
     \<Rightarrow> put_error option \<times> (string \<rightharpoonup> 'tr list)" where
  "write_paths ops [] files = (None, files)"
| "write_paths ops ((p, tr_list) # st_dic) files =
     (let stream = tr_list;
          stream = (case files p of Some st_existing \<Rightarrow> stream @ st_existing | None \<Rightarrow> stream)
      in case merge_stream ops stream of
           None \<Rightarrow> (Some MergeError, files)
         | Some merged \<Rightarrow> write_paths ops st_dic (files(p \<mapsto> merged)))"

text \<open>
  \<open>put_waveforms\<close> returns the exception if any, the files, and whether \<^verbatim>\<open>update_index\<close> is
  called at the end (it is when \<^verbatim>\<open>st_dic\<close> is not empty and no exception was raised).
\<close>

definition put_waveforms ::
  "'tr obspy \<Rightarrow> ('tr \<Rightarrow> string) \<Rightarrow> (string \<rightharpoonup> 'tr list) \<Rightarrow> 'tr list
     \<Rightarrow> put_error option \<times> (string \<rightharpoonup> 'tr list) \<times> bool" where
  "put_waveforms ops route files stream =
     (let st_dic = group_by_path route stream
      in case write_paths ops st_dic files of
           (Some e, files1) \<Rightarrow> (Some e, files1, False)
         | (None, files1) \<Rightarrow> (None, files1, st_dic \<noteq> []))"

text \<open>
  A small instance of the waveform library for examples: a trace is its identifier with
  its start and end time, trimming clips the time span of each trace, merging and sorting
  leave the stream as it is, and no file can be read.
\<close>

definition example_ops :: "(string \<times> real \<times> real) obspy" where
  "example_ops =
     \<lparr>tr_id = fst, tr_starttime = (\<lambda>tr. fst (snd tr)), tr_endtime = (\<lambda>tr. snd (snd tr)),
      trim = (\<lambda>t1 t2. map (\<lambda>(i, s, e). (i, max s t1, min e t2))),
      attach_response = (\<lambda>st. st),
      merge_stream = Some,
      sort_stream = (\<lambda>st. st),
      try_read_stream = (\<lambda>p. None)\<rparr>"

text \<open>
  Notions for the statements about the bulk path. A request is complete when none of its
  codes is \<^verbatim>\<open>None\<close>; it bears a wildcard when one of its codes holds one of the characters
  of \<^verbatim>\<open>match_chars\<close>. \<open>request_pass\<close> is the reference match of the four codes of a request,
  as patterns, against a row. \<open>exact_id\<close> is the seed identifier in which each code
  \<^verbatim>\<open>"--"\<close> counts as the empty code, and \<open>code_text\<close> reads a missing code as the empty one.
  A code is plain when it is not \<^verbatim>\<open>"--"\<close> and holds no dot.
\<close>

definition complete_request :: "bulk_request \<Rightarrow> bool" where
  "complete_request q =
     (req_network q \<noteq> None \<and> req_station q \<noteq> None \<and> req_location q \<noteq> None
      \<and> req_channel q \<noteq> None)"

definition code_text :: "string option \<Rightarrow> string" where
  "code_text v = (case v of None \<Rightarrow> [] | Some s \<Rightarrow> s)"

definition has_match_chars :: "string \<Rightarrow> bool" where
  "has_match_chars s = list_ex (\<lambda>c. c \<in> set match_chars) s"

definition wildcard_request :: "bulk_request \<Rightarrow> bool" where
  "wildcard_request q =
     (has_match_chars (code_text (req_network q)) \<or> has_match_chars (code_text (req_station q))
      \<or> has_match_chars (code_text (req_location q))
      \<or> has_match_chars (code_text (req_channel q)))"

definition request_pass :: "bulk_request \<Rightarrow> index_row \<Rightarrow> bool" where
  "request_pass q r =
     (shell_match (code_text (req_network q)) (network r)
      \<and> shell_match (code_text (req_station q)) (station r)
      \<and> shell_match (code_text (req_location q)) (location r)
      \<and> shell_match (code_text (req_channel q)) (channel r))"

definition dashes_to_empty :: "string \<Rightarrow> string" where
  "dashes_to_empty s = (if s = [CHR ''-'', CHR ''-''] then [] else s)"

definition exact_id :: "string \<Rightarrow> string \<Rightarrow> string \<Rightarrow> string \<Rightarrow> string" where
  "exact_id net sta loc chan =
     concat [dashes_to_empty net, ''.'', dashes_to_empty sta, ''.'', dashes_to_empty loc, ''.'',
             dashes_to_empty chan]"

definition row_id :: "index_row \<Rightarrow> string" where
  "row_id r = exact_id (network r) (station r) (location r) (channel r)"

definition request_id :: "bulk_request \<Rightarrow> string" where
  "request_id q =
     exact_id (code_text (req_network q)) (code_text (req_station q))
       (code_text (req_location q)) (code_text (req_channel q))"



definition mk_req ::
  "string \<Rightarrow> string \<Rightarrow> string \<Rightarrow> string \<Rightarrow> real \<Rightarrow> real \<Rightarrow> bulk_request" where
  "mk_req net sta loc chan t1 t2 =
     \<lparr>req_network = Some net, req_station = Some sta, req_location = Some loc,
      req_channel = Some chan, req_t1 = t1, req_t2 = t2\<rparr>"

section \<open>Properties\<close>

subsection \<open>The filter and the wildcard match\<close>

lemma list_ex_upt: "list_ex P [0..<n] = (\<exists>k<n. P k)"
  by (auto simp: list_ex_iff)

lemma ex_less_Suc: "(\<exists>k<Suc n. P k) = (P 0 \<or> (\<exists>k<n. P (Suc k)))"
  by (metis less_Suc_eq_0_disj)

lemma str_match_AnyString:
  "str_match (AnyString # ts) v = list_ex (\<lambda>k. str_match ts (drop k v)) [0..<Suc (length v)]"
proof (induction v)
  case Nil
  then show ?case by simp
next
  case (Cons d v)
  have "str_match (AnyString # ts) (d # v)
        = (str_match ts (d # v) \<or> (\<exists>k<Suc (length v). str_match ts (drop k v)))"
    using Cons by (simp add: list_ex_upt del: upt_Suc)
  also have "\<dots> = (\<exists>k<Suc (Suc (length v)). str_match ts (drop k (d # v)))"
    by (subst (2) ex_less_Suc) simp
  finally show ?case by (simp add: list_ex_upt del: upt_Suc)
qed

lemma find_close_takeWhile:
  "find_close cs
     = (if CHR '']'' \<in> set cs then Some (takeWhile (\<lambda>c. c \<noteq> CHR '']'') cs) else None)"
  by (induction cs) simp_all

lemma bracket_stuff_class:
  "bracket_stuff p
     = (if class_closed p
        then Some ((if class_negated p then ''!'' else []) @ class_chars p)
        else None)"
proof (cases "class_start p")
  case Nil
  then show ?thesis
    by (cases p)
      (auto simp: bracket_stuff_def class_closed_def class_start_def class_negated_def Let_def
        split: if_splits)
next
  case (Cons x xs)
  then show ?thesis
    by (cases p)
      (auto simp: bracket_stuff_def class_closed_def class_start_def class_negated_def
        class_chars_def Let_def find_close_takeWhile split: if_splits)
qed

lemma in_char_set_in_class: "in_char_set (set_items cs) c = in_class cs c"
  by (induction cs rule: set_items.induct)
    (auto simp: in_char_set_def less_eq_char_def)

lemma char_set_class:
  "class_closed p \<Longrightarrow>
   char_set ((if class_negated p then ''!'' else []) @ class_chars p)
     = CharSet (class_negated p) (set_items (class_chars p))"
  by (cases p)
    (auto simp: char_set_def class_chars_def class_start_def class_negated_def class_closed_def)

lemma str_match_translate:
  "str_match (translate_from n p) v = shell_match_from n p v"
proof (induction n p arbitrary: v rule: translate_from.induct)
  case (1 n)
  then show ?case by simp
next
  case (2 n c cs)
  then show ?case by simp
next
  case (3 c cs)
  have len: "Suc (length ((if class_negated cs then ''!'' else []) @ class_chars cs))
             = class_length cs"
    by (simp add: class_length_def)
  show ?case
  proof (cases "c = CHR ''['' \<and> class_closed cs")
    case True
    then have stuff: "bracket_stuff cs
        = Some ((if class_negated cs then ''!'' else []) @ class_chars cs)"
      by (simp add: bracket_stuff_class)
    have IH: "str_match (translate_from (class_length cs) cs) w
              = shell_match_from (class_length cs) cs w" for w
      using "3.IH"(4) [of "(if class_negated cs then ''!'' else []) @ class_chars cs" w] True stuff
      by (simp only: len) simp
    from True show ?thesis
      by (cases v)
        (simp_all add: stuff char_set_class in_char_set_in_class IH del: append.simps
          add: len [unfolded length_append])
  next
    case False
    then have none: "c = CHR ''['' \<Longrightarrow> bracket_stuff cs = None"
      by (simp add: bracket_stuff_class)
    show ?thesis
    proof (cases v)
      case Nil
      with 3 False none show ?thesis
        by (auto simp: str_match_AnyString split: option.splits)
    next
      case (Cons d w)
      with 3 False none show ?thesis
        by (auto simp: str_match_AnyString list_ex_iff simp del: upt_Suc split: option.splits)
    qed
  qed
qed

lemma str_match_get_regex: "str_match (get_regex p) v = shell_match p v"
  by (simp add: get_regex_def shell_match_def str_match_translate)

lemma logical_and_map:
  "logical_and (map P xs) (map Q xs) = map (\<lambda>x. P x \<and> Q x) xs"
  by (induction xs) (simp_all add: logical_and_def)

lemma apply_filter_map:
  "apply_filter val (map f index) (map P index) = map (\<lambda>r. P r \<and> code_pass val (f r)) index"
proof (cases val)
  case Absent
  then show ?thesis by (simp add: apply_filter_def code_pass_def)
next
  case (Pattern p)
  have "map (str_match (get_regex p)) (map f index) = map (\<lambda>r. shell_match p (f r)) index"
    by (simp add: str_match_get_regex)
  with Pattern show ?thesis
    by (simp add: apply_filter_def code_pass_def logical_and_map del: map_map)
next
  case (OneOf vs)
  have "map (\<lambda>v. v \<in> set vs) (map f index) = map (\<lambda>r. f r \<in> set vs) index"
    by simp
  with OneOf show ?thesis
    by (simp add: apply_filter_def code_pass_def logical_and_map del: map_map)
qed

lemma replicate_True_map: "replicate (length xs) True = map (\<lambda>_. True) xs"
  by (induction xs) simp_all

lemma filter_index_codes:
  "filter_index index net sta loc chan None None = map (row_pass net sta loc chan) index"
  by (simp add: filter_index_def Let_def replicate_True_map apply_filter_map row_pass_def)

lemma select_rows_map: "select_rows xs (map P xs) = filter P xs"
  by (induction xs) (simp_all add: select_rows_def)

lemma select_filter_index:
  "select_rows index (filter_index index net sta loc chan None None)
     = filter (row_pass net sta loc chan) index"
  by (simp add: filter_index_codes select_rows_map)



subsection \<open>The write path of the index\<close>

lemma replace_char: "replace_from 0 [c] [] s = filter (\<lambda>d. d \<noteq> c) s"
  by (induction s) auto

lemma clean_code_filter:
  "clean_code s = filter (\<lambda>c. c \<noteq> CHR ''b'' \<and> c \<noteq> CHR 0x27) s"
  by (simp add: clean_code_def str_replace_def replace_char conj_commute)

lemma write_update_store:
  "updates \<noteq> [] \<Longrightarrow>
   write_update b updates
     = (None, b\<lparr>index_store :=
                   Some ((case index_store b of None \<Rightarrow> [] | Some old \<Rightarrow> old)
                         @ map (clean_row (bank_path b)) updates),
                 store_log := store_log b @ [AppendStore]\<rparr>)"
  by (simp add: write_update_def log_access_def Let_def)

lemma update_index_cases:
  "update_index b =
     (if pending b = [] then (None, b)
      else if concat (pending b) = [] then (Some KeyError, b)
      else (None, b\<lparr>index_store :=
                       Some ((case index_store b of None \<Rightarrow> [] | Some old \<Rightarrow> old)
                             @ map (clean_row (bank_path b)) (concat (pending b))),
                     store_log := store_log b @ [AppendStore],
                     index_cache := [], pending := []\<rparr>))"
  by (simp add: update_index_def Let_def write_update_store)
    (simp add: write_update_def)

text \<open>
  C2. The write path cleans the four codes by removing every letter \<^verbatim>\<open>b\<close> and every quote
  character, not only the markers of a byte string: a code is stored unchanged exactly
  when it holds neither. The station code \<^verbatim>\<open>bob\<close> is stored as \<^verbatim>\<open>o\<close>, the code \<^verbatim>\<open>BOB\<close> as it is.
\<close>

theorem write_update_removes_every_b:
  "clean_code s = filter (\<lambda>c. c \<noteq> CHR ''b'' \<and> c \<noteq> CHR 0x27) s
   \<and> map station (index_table (snd (write_update (init_bank ''/bank'' 5 None [])
        [mk_row ''UU'' ''bob'' [] ''HHZ'' 0 10 ''/bank/f1'',
         mk_row ''UU'' ''BOB'' [] ''HHZ'' 0 10 ''/bank/f2''])))
     = [''o'', ''BOB'']"
proof
  show "clean_code s = filter (\<lambda>c. c \<noteq> CHR ''b'' \<and> c \<noteq> CHR 0x27) s"
    by (rule clean_code_filter)
  show "map station (index_table (snd (write_update (init_bank ''/bank'' 5 None [])
        [mk_row ''UU'' ''bob'' [] ''HHZ'' 0 10 ''/bank/f1'',
         mk_row ''UU'' ''BOB'' [] ''HHZ'' 0 10 ''/bank/f2''])))
     = [''o'', ''BOB'']"
    by (simp add: write_update_def init_bank_def log_access_def index_table_def mk_row_def
        clean_row_def clean_code_def str_replace_def)
qed

theorem write_update_removes_every_b_witness:
  "clean_code (CHR ''b'' # CHR 0x27 # ''A1'' @ [CHR 0x27]) = ''A1''"
  using write_update_removes_every_b [of "CHR ''b'' # CHR 0x27 # ''A1'' @ [CHR 0x27]"] by simp

subsection \<open>Reading the index\<close>

lemma cache_call_rows:
  "cache_ok b \<Longrightarrow>
   fst (cache_call b start end buf cols) = padded_read (index_store b) (start, end, buf, cols)"
  by (auto simp: cache_call_def cache_ok_def log_access_def Let_def list_all_iff
      split: option.splits dest!: map_of_SomeD)

lemma cache_call_store:
  "index_store (snd (cache_call b start end buf cols)) = index_store b"
  by (simp add: cache_call_def log_access_def Let_def split: option.splits)

lemma in_set_tl: "x \<in> set (tl xs) \<Longrightarrow> x \<in> set xs"
  by (cases xs) simp_all

lemma cache_ok_iff:
  "cache_ok b
     = (\<forall>key rows. (key, rows) \<in> set (index_cache b) \<longrightarrow> rows = padded_read (index_store b) key)"
  by (auto simp: cache_ok_def list_all_iff)

lemma cache_call_ok:
  assumes "cache_ok b" and "cache_call b start end buf cols = (rows, b')"
  shows "cache_ok b'"
proof (cases "map_of (index_cache b) (start, end, buf, cols)")
  case (Some hit)
  with assms show ?thesis by (simp add: cache_call_def)
next
  case None
  let ?new = "((start, end, buf, cols), padded_read (index_store b) (start, end, buf, cols))"
  let ?entries = "index_cache b @ [?new]"
  have all: "\<forall>key rows. (key, rows) \<in> set ?entries \<longrightarrow> rows = padded_read (index_store b) key"
    using assms(1) by (auto simp: cache_ok_iff)
  then have "\<forall>key rows. (key, rows) \<in> set (tl ?entries) \<longrightarrow> rows = padded_read (index_store b) key"
    by (blast dest: in_set_tl)
  with all None assms(2) show ?thesis
    unfolding cache_ok_iff
    by (auto simp: cache_call_def log_access_def Let_def split: if_splits)
qed

lemma update_index_ok:
  assumes "cache_ok b" and "update_index b = (err, b')"
  shows "cache_ok b'"
  using assms by (auto simp: update_index_cases cache_ok_def split: if_splits)

lemma log_access_ok: "cache_ok (log_access ev b) = cache_ok b"
  by (simp add: cache_ok_def log_access_def)

lemma init_bank_ok: "cache_ok (init_bank base_path csize store files)"
  by (simp add: cache_ok_def init_bank_def)

lemma read_index_ok:
  assumes "cache_ok b" and "read_index b net sta loc chan start end cols = (res, b')"
  shows "cache_ok b'"
proof (cases "start \<noteq> None \<and> end \<noteq> None \<and> the start > the end")
  case True
  with assms show ?thesis by (simp add: read_index_def)
next
  case False
  obtain err b1 where upd:
    "(if index_store (log_access Exists b) = None then update_index (log_access Exists b)
      else (None, log_access Exists b)) = (err, b1)"
    by (cases "if index_store (log_access Exists b) = None
        then update_index (log_access Exists b) else (None, log_access Exists b)") simp
  have ok1: "cache_ok b1"
    using upd assms(1) update_index_ok [of "log_access Exists b" err b1]
    by (auto simp: log_access_ok split: if_splits)
  then have ok2: "cache_ok (log_access Exists b1)"
    by (simp add: log_access_ok)
  obtain index b3 where cc: "cache_call (log_access Exists b1) start end buffer cols = (index, b3)"
    by (cases "cache_call (log_access Exists b1) start end buffer cols") simp
  have "cache_ok b3"
    using cache_call_ok [OF ok2 cc] .
  with assms(2) False upd cc ok1 ok2 show ?thesis
    by (auto simp: read_index_def Let_def split: option.splits if_splits)
qed

lemma overlaps_Some:
  "overlaps (Some a) (Some b) = (\<lambda>r. \<not> (endtime r < a \<or> starttime r > b))"
  by (rule ext) (simp add: overlaps_def)

lemma select_all_columns: "map (select_columns AllColumns) rows = rows"
  by (induction rows) (simp_all add: select_columns_def)

text \<open>
  C4. When both bounds are given and the start is after the end, \<open>read_index\<close> raises
  (\<^verbatim>\<open>ValueError\<close> in the source) and the bank is as before, with no access to the index
  file on its log. In every other case the first step is the test whether the index
  file exists, and the result is not that error.
\<close>

theorem read_index_rejects_reversed_times:
  "(if \<exists>s e. start = Some s \<and> end = Some e \<and> e < s
    then read_index b net sta loc chan start end cols = (Inl ValueError, b)
    else fst (read_index b net sta loc chan start end cols) \<noteq> Inl ValueError
       \<and> take (Suc (length (store_log b)))
            (store_log (snd (read_index b net sta loc chan start end cols)))
          = store_log b @ [Exists])"
  by (auto simp: read_index_def Let_def update_index_cases log_access_def cache_call_def
      split: prod.splits option.splits if_splits)

theorem read_index_rejects_reversed_times_witness:
  "read_index (init_bank ''/bank'' 5 (Some [mk_row ''UU'' ''A1'' [] ''HHZ'' 0 10 ''f1'']) [])
      Absent Absent Absent Absent (Some 20) (Some 10) AllColumns
     = (Inl ValueError,
        init_bank ''/bank'' 5 (Some [mk_row ''UU'' ''A1'' [] ''HHZ'' 0 10 ''f1'']) [])
   \<and> fst (read_index (init_bank ''/bank'' 5 (Some [mk_row ''UU'' ''A1'' [] ''HHZ'' 0 10 ''f1'']) [])
      Absent Absent Absent Absent (Some 10) None AllColumns) \<noteq> Inl ValueError"
  using read_index_rejects_reversed_times
    [of "Some 20" "Some 10"
      "init_bank ''/bank'' 5 (Some [mk_row ''UU'' ''A1'' [] ''HHZ'' 0 10 ''f1'']) []"
      Absent Absent Absent Absent AllColumns]
    read_index_rejects_reversed_times
    [of "Some 10" None
      "init_bank ''/bank'' 5 (Some [mk_row ''UU'' ''A1'' [] ''HHZ'' 0 10 ''f1'']) []"
      Absent Absent Absent Absent AllColumns]
  by simp

text \<open>
  C5. A valid query on a bank without an index file returns the empty table only when the
  directory holds no file at all. When the directory holds files of which none yields a
  summary row (files that are no waveform files), \<^verbatim>\<open>update_index\<close> hands the empty list
  of rows to \<^verbatim>\<open>_write_update\<close>, and \<open>read_index\<close> raises \<^verbatim>\<open>KeyError\<close>: so it does for the bank
  with one such file.
\<close>

theorem read_index_bank_without_waveforms:
  assumes "index_store b = None"
    and "\<not> (\<exists>s e. start = Some s \<and> end = Some e \<and> e < s)"
  shows "(pending b = [] \<longrightarrow> fst (read_index b net sta loc chan start end cols) = Inr [])
       \<and> (pending b \<noteq> [] \<and> concat (pending b) = [] \<longrightarrow>
            fst (read_index b net sta loc chan start end cols) = Inl KeyError)
       \<and> fst (read_index (init_bank ''/bank'' 5 None [[]]) Absent Absent Absent Absent None None
            AllColumns) = Inl KeyError"
proof (intro conjI impI)
  show "fst (read_index b net sta loc chan start end cols) = Inr []" if "pending b = []"
    using assms that
    by (auto simp: read_index_def Let_def update_index_cases log_access_def)
  show "fst (read_index b net sta loc chan start end cols) = Inl KeyError"
    if "pending b \<noteq> [] \<and> concat (pending b) = []"
    using assms that
    by (auto simp: read_index_def Let_def update_index_cases log_access_def)
  show "fst (read_index (init_bank ''/bank'' 5 None [[]]) Absent Absent Absent Absent None None
            AllColumns) = Inl KeyError"
    by (simp add: read_index_def Let_def update_index_cases log_access_def init_bank_def)
qed

theorem read_index_bank_without_waveforms_witness:
  "fst (read_index (init_bank ''/bank'' 5 None []) Absent (Pattern ''A*'') Absent Absent
     (Some 0) (Some 10) AllColumns) = Inr []
   \<and> fst (read_index (init_bank ''/bank'' 5 None [[], []]) Absent (Pattern ''A*'') Absent Absent
     (Some 0) (Some 10) AllColumns) = Inl KeyError"
  using read_index_bank_without_waveforms
    [of "init_bank ''/bank'' 5 None []" "Some 0" "Some 10" Absent "Pattern ''A*''" Absent Absent
      AllColumns]
    read_index_bank_without_waveforms
    [of "init_bank ''/bank'' 5 None [[], []]" "Some 0" "Some 10" Absent "Pattern ''A*''" Absent
      Absent AllColumns]
  by (simp add: init_bank_def)

text \<open>
  C8. For numeric bounds, \<open>read_index\<close> returns exactly the rows of the index whose codes
  pass the four filters and that overlap the range padded by the buffer of 10.111
  seconds on both sides. No filter on the requested range itself follows the read of the
  cache, so a row that overlaps only the padding is returned.
\<close>

theorem read_index_returns_padded_range:
  assumes "cache_ok b" and "t1 \<le> t2"
    and "\<not> (index_store b = None \<and> pending b \<noteq> [] \<and> concat (pending b) = [])"
  shows "fst (read_index b net sta loc chan (Some t1) (Some t2) AllColumns)
         = Inr (filter (\<lambda>r. row_pass net sta loc chan r
                           \<and> \<not> (endtime r < t1 - 10.111 \<or> starttime r > t2 + 10.111))
                  (index_table b))"
proof (cases "index_store b")
  case (Some rows)
  let ?b2 = "log_access Exists (log_access Exists b)"
  have ok: "cache_ok ?b2"
    using assms(1) by (simp add: log_access_ok)
  have store: "index_store ?b2 = Some rows"
    using Some by (simp add: log_access_def)
  have "fst (cache_call ?b2 (Some t1) (Some t2) buffer AllColumns)
        = filter (\<lambda>r. \<not> (endtime r < t1 - 10.111 \<or> starttime r > t2 + 10.111)) rows"
    by (simp add: cache_call_rows [OF ok] store padded_read_def read_range_def overlaps_Some
        buffer_def select_all_columns)
  with Some assms(2) store show ?thesis
    by (simp add: read_index_def Let_def index_table_def select_filter_index
        split: prod.splits) (auto simp: log_access_def conj_commute)
next
  case None
  show ?thesis
  proof (cases "pending b = []")
    case True
    with None assms(2) show ?thesis
      by (simp add: read_index_def Let_def update_index_cases log_access_def index_table_def)
  next
    case False
    with None assms(3) have ne: "concat (pending b) \<noteq> []"
      by simp
    let ?rows = "map (clean_row (bank_path b)) (concat (pending b))"
    let ?b2 = "b\<lparr>index_store := Some ?rows, index_cache := [], pending := [],
      store_log := store_log b @ [Exists, AppendStore, Exists]\<rparr>"
    have ok: "cache_ok ?b2"
      by (simp add: cache_ok_def)
    have "fst (cache_call ?b2 (Some t1) (Some t2) buffer AllColumns)
          = filter (\<lambda>r. \<not> (endtime r < t1 - 10.111 \<or> starttime r > t2 + 10.111)) ?rows"
      by (simp add: cache_call_rows [OF ok] padded_read_def read_range_def overlaps_Some
          buffer_def select_all_columns)
    with None False ne assms(2) show ?thesis
      by (simp add: read_index_def Let_def update_index_cases index_table_def
          select_filter_index log_access_def split: prod.splits)
        (auto simp: log_access_def conj_commute)
  qed
qed

theorem read_index_returns_padded_range_witness:
  "fst (read_index
     (init_bank ''/bank'' 5
        (Some [mk_row ''UU'' ''A1'' [] ''HHZ'' 0 95 ''f1'', mk_row ''UU'' ''A1'' [] ''HHZ'' 205 300 ''f2'',
               mk_row ''UU'' ''A1'' [] ''HHZ'' 211 300 ''f3'']) [])
     Absent Absent Absent Absent (Some 100) (Some 200) AllColumns)
   = Inr [mk_row ''UU'' ''A1'' [] ''HHZ'' 0 95 ''f1'', mk_row ''UU'' ''A1'' [] ''HHZ'' 205 300 ''f2'']"
  using read_index_returns_padded_range
    [of "init_bank ''/bank'' 5
        (Some [mk_row ''UU'' ''A1'' [] ''HHZ'' 0 95 ''f1'', mk_row ''UU'' ''A1'' [] ''HHZ'' 205 300 ''f2'',
               mk_row ''UU'' ''A1'' [] ''HHZ'' 211 300 ''f3'']) []"
      100 200 Absent Absent Absent Absent]
  by (simp add: init_bank_ok)
    (simp add: init_bank_def index_table_def row_pass_def code_pass_def mk_row_def)

subsection \<open>Gaps and uptime\<close>

lemma read_index_rows:
  assumes "cache_ok b" and "index_store b = Some rows"
    and "\<not> (start \<noteq> None \<and> end \<noteq> None \<and> the start > the end)"
  shows "fst (read_index b net sta loc chan start end cols)
         = Inr (filter (row_pass net sta loc chan)
                  (padded_read (Some rows) (start, end, buffer, cols)))"
proof -
  let ?b2 = "log_access Exists (log_access Exists b)"
  have ok: "cache_ok ?b2"
    using assms(1) by (simp add: log_access_ok)
  have store: "index_store ?b2 = Some rows" "index_store (log_access Exists b) = Some rows"
    using assms(2) by (simp_all add: log_access_def)
  have "fst (cache_call ?b2 start end buffer cols) = padded_read (Some rows) (start, end, buffer, cols)"
    by (simp add: cache_call_rows [OF ok] store)
  with assms(3) store show ?thesis
    by (simp add: read_index_def Let_def select_filter_index split: prod.splits) auto
qed

lemma read_index_store:
  assumes "index_store b = Some rows"
  shows "index_store (snd (read_index b net sta loc chan start end cols)) = Some rows"
  using assms
  by (simp add: read_index_def Let_def log_access_def cache_call_def
      split: prod.splits option.splits)

lemma row_pass_Absent: "row_pass Absent Absent Absent Absent r"
  by (simp add: row_pass_def code_pass_def)



lemma padded_read_unbounded:
  "padded_read (Some rows) (None, None, buf, cols) = map (select_columns cols) rows"
  by (simp add: padded_read_def read_range_def overlaps_def)

lemma remdups_constant:
  assumes "xs \<noteq> []" and "\<forall>x \<in> set xs. x = k"
  shows "remdups xs = [k]"
  using assms
proof (induction xs)
  case Nil
  then show ?case by simp
next
  case (Cons x xs)
  show ?case
  proof (cases "xs = []")
    case True
    with Cons.prems show ?thesis by simp
  next
    case False
    with Cons have "remdups xs = [k]" by simp
    moreover have "x \<in> set xs" using False Cons.prems(2) by (cases xs) simp_all
    ultimately show ?thesis by simp
  qed
qed


lemma groupby_one_key:
  assumes "df \<noteq> []" and "\<forall>r \<in> set df. key r = k"
  shows "groupby key df = [(k, df)]"
proof -
  have "remdups (map key df) = [k]"
  proof (rule remdups_constant)
    show "map key df \<noteq> []" using assms(1) by simp
    show "\<forall>x \<in> set (map key df). x = k" using assms(2) by simp
  qed
  moreover have "filter (\<lambda>r. key r = k) df = df"
    using assms(2) by (simp add: filter_id_conv)
  ultimately show ?thesis by (simp add: groupby_def)
qed

lemma sort_key_distinct:
  assumes "mset xs = mset ys" and "distinct (map f ys)" and "sorted (map f ys)"
  shows "sort_key f xs = ys"
proof (rule properties_for_sort_key)
  show "mset ys = mset xs" using assms(1) by simp
  show "sorted (map f ys)" by fact
  fix k assume k: "k \<in> set ys"
  have one: "filter (\<lambda>x. f k = f x) ys = [k]"
    using assms(2) k
  proof (induction ys)
    case Nil
    then show ?case by simp
  next
    case (Cons y ys)
    then show ?case by (auto simp: filter_empty_conv image_iff)
  qed
  have "mset (filter (\<lambda>x. f k = f x) xs) = mset (filter (\<lambda>x. f k = f x) ys)"
    using assms(1) by (simp only: mset_filter)
  then have "mset (filter (\<lambda>x. f k = f x) xs) = {#k#}"
    by (simp only: one mset.simps)
  then have "filter (\<lambda>x. f k = f x) xs = [k]"
    by (simp only: mset_single_iff)
  with one show "filter (\<lambda>x. f k = f x) ys = filter (\<lambda>x. f k = f x) xs"
    by simp
qed

lemma list_min_Min:
  assumes "xs \<noteq> []"
  shows "list_min xs = Min (set xs)"
proof (cases xs)
  case Nil
  with assms show ?thesis by simp
next
  case (Cons x ys)
  then show ?thesis
    unfolding list_min_def by (simp only: list.sel Min.set_eq_fold)
qed

lemma list_max_Max:
  assumes "xs \<noteq> []"
  shows "list_max xs = Max (set xs)"
proof (cases xs)
  case Nil
  with assms show ?thesis by simp
next
  case (Cons x ys)
  then show ?thesis
    unfolding list_max_def by (simp only: list.sel Max.set_eq_fold)
qed

text \<open>
  C7. An index that holds exactly three segments of the channel X.Y..Z, covering
  [0,100], [100,200] and [300,400] (in any order of the rows, at any paths): the table of
  gaps with \<^verbatim>\<open>min_gap=1\<close> has the single row from 200 to 300 of duration 100, and the
  uptime table has for the channel the duration 400, the gap duration 100 and the
  availability 0.75.
\<close>

theorem three_segments_gap_and_uptime:
  assumes "cache_ok b"
    and "index_store b = Some rows"
    and "mset rows
         = mset [mk_row ''X'' ''Y'' [] ''Z'' 0 100 p1, mk_row ''X'' ''Y'' [] ''Z'' 100 200 p2,
                 mk_row ''X'' ''Y'' [] ''Z'' 300 400 p3]"
  shows "fst (get_gaps_df b Absent Absent Absent Absent None None 1)
         = Inr [\<lparr>gap_seed = (''X'', ''Y'', [], ''Z''), gap_starttime = 200, gap_endtime = 300,
                 gap_duration = 100\<rparr>]
       \<and> fst (get_uptime_df b Absent Absent Absent Absent None None)
         = Inr [\<lparr>up_seed = (''X'', ''Y'', [], ''Z''), up_starttime = 0, up_endtime = 400,
                 duration = 400, up_gap_duration = 100, uptime = 300, availability = 0.75\<rparr>]"
proof -
  let ?seed = "(''X'', ''Y'', [], ''Z'')"
  let ?ind = "map (select_columns ColumnsNoPath) rows"
  let ?dd = "[mk_row ''X'' ''Y'' [] ''Z'' 0 100 [], mk_row ''X'' ''Y'' [] ''Z'' 100 200 [],
       mk_row ''X'' ''Y'' [] ''Z'' 300 400 []]"
  have mset_ind: "mset ?ind = mset ?dd"
    using arg_cong [OF assms(3), of "image_mset (select_columns ColumnsNoPath)"]
    by (simp add: select_columns_def mk_row_def)
  then have set_ind: "set ?ind = set ?dd"
    by (rule mset_eq_setD)
  have ne: "?ind \<noteq> []"
    using set_ind by auto
  have groups: "groupby nslc_key ?ind = [(?seed, ?ind)]"
    using set_ind by (intro groupby_one_key [OF ne]) (auto simp: nslc_key_def mk_row_def)
  have "sort_key (\<lambda>r. (starttime r, endtime r)) ?ind = ?dd"
    using mset_ind by (rule sort_key_distinct) (simp_all add: mk_row_def)
  then have gap_dfs: "get_gap_dfs ?ind 1
      = [\<lparr>gap_seed = ?seed, gap_starttime = 200, gap_endtime = 300, gap_duration = 100\<rparr>]"
    by (simp add: get_gap_dfs_def nslc_key_def mk_row_def)
  have "set (map starttime ?ind) = starttime ` set ?dd" "set (map endtime ?ind) = endtime ` set ?dd"
    using set_ind by (simp_all only: set_map)
  then have bounds: "list_min (map starttime ?ind) = 0" "list_max (map endtime ?ind) = 400"
    using ne by (simp_all add: list_min_Min list_max_Max mk_row_def del: set_map)
  have read: "fst (read_index c Absent Absent Absent Absent None None ColumnsNoPath) = Inr ?ind"
    if "cache_ok c" and "index_store c = Some rows" for c
    using read_index_rows [OF that, of None None Absent Absent Absent Absent ColumnsNoPath]
    by (simp add: padded_read_unbounded row_pass_Absent)
  obtain b1 where r1: "read_index b Absent Absent Absent Absent None None ColumnsNoPath = (Inr ?ind, b1)"
    using read [OF assms(1,2)]
    by (cases "read_index b Absent Absent Absent Absent None None ColumnsNoPath") simp
  have ok1: "cache_ok b1"
    using read_index_ok [OF assms(1) r1] .
  have st1: "index_store b1 = Some rows"
    using read_index_store [OF assms(2), of Absent Absent Absent Absent None None ColumnsNoPath] r1
    by simp
  obtain b2 where r2: "read_index b1 Absent Absent Absent Absent None None ColumnsNoPath = (Inr ?ind, b2)"
    using read [OF ok1 st1]
    by (cases "read_index b1 Absent Absent Absent Absent None None ColumnsNoPath") simp
  have gaps: "get_gaps_df c Absent Absent Absent Absent None None 1
        = (Inr [\<lparr>gap_seed = ?seed, gap_starttime = 200, gap_endtime = 300,
                 gap_duration = 100\<rparr>], c')"
    if "read_index c Absent Absent Absent Absent None None ColumnsNoPath = (Inr ?ind, c')" for c c'
    using that by (simp add: get_gaps_df_def groups gap_dfs)
  have avail: "get_availability_df b Absent Absent Absent Absent None None
        = (Inr [\<lparr>av_seed = ?seed, av_starttime = 0, av_endtime = 400\<rparr>], b1)"
    using r1 by (simp add: get_availability_df_def groups bounds del: map_map)
  have "fst (get_gaps_df b Absent Absent Absent Absent None None 1)
         = Inr [\<lparr>gap_seed = ?seed, gap_starttime = 200, gap_endtime = 300,
                 gap_duration = 100\<rparr>]"
    using gaps [OF r1] by simp
  moreover have "fst (get_uptime_df b Absent Absent Absent Absent None None)
         = Inr [\<lparr>up_seed = ?seed, up_starttime = 0, up_endtime = 400,
                 duration = 400, up_gap_duration = 100, uptime = 300, availability = 0.75\<rparr>]"
    by (simp add: get_uptime_df_def avail gaps [OF r2] groupby_def merge_uptime_def)
  ultimately show ?thesis by simp
qed

theorem three_segments_gap_and_uptime_witness:
  "fst (get_gaps_df (init_bank ''/bank'' 5
         (Some [mk_row ''X'' ''Y'' [] ''Z'' 300 400 ''f3'', mk_row ''X'' ''Y'' [] ''Z'' 0 100 ''f1'',
                 mk_row ''X'' ''Y'' [] ''Z'' 100 200 ''f2'']) [])
         Absent Absent Absent Absent None None 1)
         = Inr [\<lparr>gap_seed = (''X'', ''Y'', [], ''Z''), gap_starttime = 200, gap_endtime = 300,
                 gap_duration = 100\<rparr>]
   \<and> fst (get_uptime_df (init_bank ''/bank'' 5
         (Some [mk_row ''X'' ''Y'' [] ''Z'' 300 400 ''f3'', mk_row ''X'' ''Y'' [] ''Z'' 0 100 ''f1'',
                 mk_row ''X'' ''Y'' [] ''Z'' 100 200 ''f2'']) [])
         Absent Absent Absent Absent None None)
         = Inr [\<lparr>up_seed = (''X'', ''Y'', [], ''Z''), up_starttime = 0, up_endtime = 400,
                 duration = 400, up_gap_duration = 100, uptime = 300, availability = 0.75\<rparr>]"
  using three_segments_gap_and_uptime [of "init_bank ''/bank'' 5
         (Some [mk_row ''X'' ''Y'' [] ''Z'' 300 400 ''f3'', mk_row ''X'' ''Y'' [] ''Z'' 0 100 ''f1'',
                 mk_row ''X'' ''Y'' [] ''Z'' 100 200 ''f2'']) []"
       "[mk_row ''X'' ''Y'' [] ''Z'' 300 400 ''f3'', mk_row ''X'' ''Y'' [] ''Z'' 0 100 ''f1'',
                 mk_row ''X'' ''Y'' [] ''Z'' 100 200 ''f2'']" "''f1''" "''f2''" "''f3''"]
  by (simp add: init_bank_ok) (simp add: init_bank_def)

subsection \<open>The write path of the waveforms\<close>

lemma dict_append_map_of:
  "map_of (dict_append d p tr)
     = (map_of d)(p \<mapsto> (case map_of d p of None \<Rightarrow> [tr] | Some trs \<Rightarrow> trs @ [tr]))"
  by (induction d p tr rule: dict_append.induct) (auto simp: fun_eq_iff)

lemma dict_append_keys: "set (map fst (dict_append d p tr)) = insert p (set (map fst d))"
  by (induction d p tr rule: dict_append.induct) auto

lemma dict_append_distinct:
  "distinct (map fst d) \<Longrightarrow> distinct (map fst (dict_append d p tr))"
proof (induction d p tr rule: dict_append.induct)
  case (1 p tr)
  then show ?case by simp
next
  case (2 q trs d p tr)
  then show ?case
    using dict_append_keys [of d p tr] by auto
qed

lemma fold_dict_append_distinct:
  "distinct (map fst d) \<Longrightarrow>
   distinct (map fst (fold (\<lambda>tr st_dic. dict_append st_dic (route tr) tr) stream d))"
  by (induction stream arbitrary: d) (simp_all add: dict_append_distinct)

lemma fold_dict_append_map_of:
  "map_of (fold (\<lambda>tr st_dic. dict_append st_dic (route tr) tr) stream d) p
     = (case map_of d p of
          None \<Rightarrow> (if p \<in> route ` set stream
                    then Some (filter (\<lambda>tr. route tr = p) stream) else None)
        | Some trs \<Rightarrow> Some (trs @ filter (\<lambda>tr. route tr = p) stream))"
proof (induction stream arbitrary: d)
  case Nil
  then show ?case by (simp split: option.splits)
next
  case (Cons tr stream)
  show ?case
    by (simp add: Cons.IH dict_append_map_of split: option.splits)
qed

lemma group_by_path_map_of:
  "map_of (group_by_path route stream) p
     = (if p \<in> route ` set stream then Some (filter (\<lambda>tr. route tr = p) stream) else None)"
  by (simp add: group_by_path_def fold_dict_append_map_of)

lemma group_by_path_distinct: "distinct (map fst (group_by_path route stream))"
  by (simp add: group_by_path_def fold_dict_append_distinct)

lemma write_paths_other:
  "p \<notin> set (map fst st_dic) \<Longrightarrow> write_paths ops st_dic files = (err, files') \<Longrightarrow>
   files' p = files p"
proof (induction st_dic arbitrary: files)
  case Nil
  then show ?case by simp
next
  case (Cons a st_dic)
  obtain q trs where a: "a = (q, trs)" by (cases a)
  with Cons show ?case
    by (auto simp: Let_def split: option.splits)
qed

lemma write_paths_keeps_or_merges:
  assumes "distinct (map fst st_dic)" and "write_paths ops st_dic files = (err, files')"
    and "files p = Some old"
  shows "files' p = Some old
       \<or> (\<exists>trs. map_of st_dic p = Some trs \<and> merge_stream ops (trs @ old) \<noteq> None
              \<and> files' p = merge_stream ops (trs @ old))"
  using assms
proof (induction st_dic arbitrary: files)
  case Nil
  then show ?case by simp
next
  case (Cons a st_dic)
  obtain q trs where a: "a = (q, trs)" by (cases a)
  show ?case
  proof (cases "merge_stream ops (case files q of Some ex \<Rightarrow> trs @ ex | None \<Rightarrow> trs)")
    case None
    with Cons.prems a show ?thesis by (simp add: Let_def)
  next
    case (Some merged)
    with Cons.prems a
    have rest: "write_paths ops st_dic (files(q \<mapsto> merged)) = (err, files')"
      by (simp add: Let_def)
    show ?thesis
    proof (cases "q = p")
      case True
      with Cons.prems(1) a have "p \<notin> set (map fst st_dic)" by simp
      then have "files' p = (files(q \<mapsto> merged)) p"
        using rest by (rule write_paths_other)
      with True Some Cons.prems(3) a show ?thesis by simp
    next
      case False
      with Cons.prems a have "distinct (map fst st_dic)" "(files(q \<mapsto> merged)) p = Some old"
        by simp_all
      from Cons.IH [OF this(1) rest this(2)] False a show ?thesis by simp
    qed
  qed
qed

lemma write_paths_merges:
  assumes "distinct (map fst st_dic)" and "write_paths ops st_dic files = (None, files')"
    and "files p = Some old" and "map_of st_dic p = Some trs"
  shows "merge_stream ops (trs @ old) \<noteq> None \<and> files' p = merge_stream ops (trs @ old)"
  using assms
proof (induction st_dic arbitrary: files)
  case Nil
  then show ?case by simp
next
  case (Cons a st_dic)
  obtain q qtrs where a: "a = (q, qtrs)" by (cases a)
  show ?case
  proof (cases "merge_stream ops (case files q of Some ex \<Rightarrow> qtrs @ ex | None \<Rightarrow> qtrs)")
    case None
    with Cons.prems a show ?thesis by (simp add: Let_def)
  next
    case (Some merged)
    with Cons.prems a
    have rest: "write_paths ops st_dic (files(q \<mapsto> merged)) = (None, files')"
      by (simp add: Let_def)
    show ?thesis
    proof (cases "q = p")
      case True
      with Cons.prems(1) a have "p \<notin> set (map fst st_dic)" by simp
      then have "files' p = (files(q \<mapsto> merged)) p"
        using rest by (rule write_paths_other)
      with True Some Cons.prems(3,4) a show ?thesis by simp
    next
      case False
      with Cons.prems a have "distinct (map fst st_dic)" "(files(q \<mapsto> merged)) p = Some old"
        "map_of st_dic p = Some trs"
        by simp_all
      from Cons.IH [OF this(1) rest this(2,3)] show ?thesis .
    qed
  qed
qed

text \<open>
  C6. When \<open>put_waveforms\<close> routes traces to a path at which a file exists, the file is
  written with the merge of the new traces followed by the existing content. The content
  of an existing file is never replaced by anything else: after the call the file holds
  either what it held before or that merge, and it holds the merge whenever the call ends
  without an exception and some trace was routed to the path.
\<close>

theorem put_waveforms_merges_existing:
  assumes "files p = Some old"
    and "put_waveforms ops route files stream = (err, files', upd)"
  shows "(files' p = Some old
          \<or> (merge_stream ops (filter (\<lambda>tr. route tr = p) stream @ old) \<noteq> None
             \<and> files' p = merge_stream ops (filter (\<lambda>tr. route tr = p) stream @ old)))
       \<and> (err = None \<and> p \<in> route ` set stream \<longrightarrow>
            merge_stream ops (filter (\<lambda>tr. route tr = p) stream @ old) \<noteq> None
            \<and> files' p = merge_stream ops (filter (\<lambda>tr. route tr = p) stream @ old))"
proof -
  let ?st_dic = "group_by_path route stream"
  have wp: "write_paths ops ?st_dic files = (err, files')"
    using assms(2) by (auto simp: put_waveforms_def Let_def split: prod.splits option.splits)
  have first: "files' p = Some old
          \<or> (merge_stream ops (filter (\<lambda>tr. route tr = p) stream @ old) \<noteq> None
             \<and> files' p = merge_stream ops (filter (\<lambda>tr. route tr = p) stream @ old))"
    using write_paths_keeps_or_merges [OF group_by_path_distinct wp assms(1)]
    by (auto simp: group_by_path_map_of split: if_splits)
  have second: "merge_stream ops (filter (\<lambda>tr. route tr = p) stream @ old) \<noteq> None
            \<and> files' p = merge_stream ops (filter (\<lambda>tr. route tr = p) stream @ old)"
    if "err = None" and "p \<in> route ` set stream"
  proof -
    have w: "write_paths ops ?st_dic files = (None, files')"
      using wp that(1) by simp
    have m: "map_of ?st_dic p = Some (filter (\<lambda>tr. route tr = p) stream)"
      using that(2) by (simp add: group_by_path_map_of)
    have d: "distinct (map fst ?st_dic)"
      by (rule group_by_path_distinct)
    show ?thesis
      using d w assms(1) m by (rule write_paths_merges)
  qed
  from first second show ?thesis by blast
qed

theorem put_waveforms_merges_existing_witness:
  "fst (snd (put_waveforms example_ops (\<lambda>tr. ''/bank/'' @ fst tr)
       [''/bank/a'' \<mapsto> [(''a'', 0, 10)]]
       [(''a'', 10, 20), (''b'', 0, 5), (''a'', 20, 30)])) ''/bank/a''
   = Some [(''a'', 10, 20), (''a'', 20, 30), (''a'', 0, 10)]"
proof -
  obtain err files' upd where put:
    "put_waveforms example_ops (\<lambda>tr. ''/bank/'' @ fst tr) [''/bank/a'' \<mapsto> [(''a'', 0, 10)]]
       [(''a'', 10, 20), (''b'', 0, 5), (''a'', 20, 30)] = (err, files', upd)"
    by (cases "put_waveforms example_ops (\<lambda>tr. ''/bank/'' @ fst tr)
       [''/bank/a'' \<mapsto> [(''a'', 0, 10)]] [(''a'', 10, 20), (''b'', 0, 5), (''a'', 20, 30)]") auto
  then have "err = None"
    by (auto simp: put_waveforms_def group_by_path_def example_ops_def Let_def
        split: prod.splits option.splits)
  with put_waveforms_merges_existing
    [of "[''/bank/a'' \<mapsto> [(''a'', 0, 10)]]" "''/bank/a''" "[(''a'', 0, 10)]" example_ops
      "\<lambda>tr. ''/bank/'' @ fst tr" "[(''a'', 10, 20), (''b'', 0, 5), (''a'', 20, 30)]"
      err files' upd] put
  show ?thesis by (simp add: example_ops_def)
qed

subsection \<open>Polishing a stream\<close>

text \<open>
  C10, as stated, fails for a bound given as \<^verbatim>\<open>UTCDateTime\<close>: the epoch as
  \<^verbatim>\<open>UTCDateTime(0)\<close> is a true value, and a trace from -50 to 60 polished with that start
  time starts at 0, where it starts at -50 when the start time is absent.
\<close>

theorem polish_stream_utc_epoch_counterexample:
  "polish_stream example_ops [(''X.Y..Z'', -50, 60)] (Some (UTCDateTime 0)) (Some (Float 100))
     False = [(''X.Y..Z'', 0, 60)]
   \<and> polish_stream example_ops [(''X.Y..Z'', -50, 60)] None (Some (Float 100)) False
     = [(''X.Y..Z'', -50, 60)]"
  by (simp add: polish_stream_def example_ops_def list_min_def)

text \<open>
  C10, amended. In \<open>polish_stream\<close> a start or end time given as the float 0.0 is taken as
  absent, since the bounds are tested for truth: the stream is trimmed to the least start
  time and the greatest end time of its traces, as for bounds that were not given. A
  trace from -50 to 60 polished with the start time 0.0 still starts at -50. A bound given
  as \<^verbatim>\<open>UTCDateTime\<close> is used as it is, also at the epoch.
\<close>

theorem polish_stream_zero_is_absent:
  "polish_stream ops st (Some (Float 0)) end attach = polish_stream ops st None end attach
   \<and> polish_stream ops st start (Some (Float 0)) attach = polish_stream ops st start None attach
   \<and> polish_stream ops st (Some (Float 0)) (Some (Float 0)) attach
       = polish_stream ops st (Some (UTCDateTime (list_min (map (tr_starttime ops) st))))
           (Some (UTCDateTime (list_max (map (tr_endtime ops) st)))) attach
   \<and> polish_stream ops (tr # st) (Some (UTCDateTime t1)) (Some (UTCDateTime t2)) False
       = sort_stream ops
           (case merge_stream ops (trim ops t1 t2 (tr # st)) of
              Some merged \<Rightarrow> merged
            | None \<Rightarrow> trim ops t1 t2 (tr # st))
   \<and> polish_stream example_ops [(''X.Y..Z'', -50, 60)] (Some (Float 0)) (Some (Float 100)) False
       = [(''X.Y..Z'', -50, 60)]
   \<and> polish_stream example_ops [(''X.Y..Z'', -50, 60)] (Some (Float 1)) (Some (Float 100)) False
       = [(''X.Y..Z'', 1, 60)]"
proof (intro conjI)
  show "polish_stream ops st (Some (Float 0)) end attach = polish_stream ops st None end attach"
    by (simp add: polish_stream_def)
  show "polish_stream ops st start (Some (Float 0)) attach
        = polish_stream ops st start None attach"
    by (simp add: polish_stream_def)
  show "polish_stream ops st (Some (Float 0)) (Some (Float 0)) attach
       = polish_stream ops st (Some (UTCDateTime (list_min (map (tr_starttime ops) st))))
           (Some (UTCDateTime (list_max (map (tr_endtime ops) st)))) attach"
    by (simp add: polish_stream_def)
  show "polish_stream ops (tr # st) (Some (UTCDateTime t1)) (Some (UTCDateTime t2)) False
       = sort_stream ops
           (case merge_stream ops (trim ops t1 t2 (tr # st)) of
              Some merged \<Rightarrow> merged
            | None \<Rightarrow> trim ops t1 t2 (tr # st))"
    by (simp add: polish_stream_def Let_def)
  show "polish_stream example_ops [(''X.Y..Z'', -50, 60)] (Some (Float 0)) (Some (Float 100))
          False = [(''X.Y..Z'', -50, 60)]"
    by (simp add: polish_stream_def example_ops_def list_min_def)
  show "polish_stream example_ops [(''X.Y..Z'', -50, 60)] (Some (Float 1)) (Some (Float 100))
          False = [(''X.Y..Z'', 1, 60)]"
    by (simp add: polish_stream_def example_ops_def)
qed

theorem polish_stream_zero_is_absent_witness:
  "polish_stream example_ops [(''X.Y..Z'', 5, 60), (''X.Y..Z'', 70, 90)] (Some (Float 0))
     (Some (Float 0)) False
   = polish_stream example_ops [(''X.Y..Z'', 5, 60), (''X.Y..Z'', 70, 90)]
       (Some (UTCDateTime 5)) (Some (UTCDateTime 90)) False"
proof -
  let ?st = "[(''X.Y..Z'', 5, 60), (''X.Y..Z'', 70, 90 :: real)] :: (string \<times> real \<times> real) list"
  have least: "list_min (map (tr_starttime example_ops) ?st) = 5"
    and greatest: "list_max (map (tr_endtime example_ops) ?st) = 90"
    by (simp_all add: example_ops_def list_min_def list_max_def)
  from polish_stream_zero_is_absent [of example_ops ?st "Some (Float 0)" False "Some (Float 0)"]
  have "polish_stream example_ops ?st (Some (Float 0)) (Some (Float 0)) False
       = polish_stream example_ops ?st
           (Some (UTCDateTime (list_min (map (tr_starttime example_ops) ?st))))
           (Some (UTCDateTime (list_max (map (tr_endtime example_ops) ?st)))) False"
    by blast
  then show ?thesis
    by (simp only: least greatest)
qed

subsection \<open>The bulk path\<close>

lemma map2_or_map: "map2 (\<or>) (map P xs) (map Q xs) = map (\<lambda>x. P x \<or> Q x) xs"
  by (induction xs) simp_all

lemma replicate_False_map: "replicate (length xs) False = map (\<lambda>_. False) xs"
  by (induction xs) simp_all

lemma fold_or_rows:
  "fold (map2 (\<or>)) (map (\<lambda>q. map (P q) xs) qs) (map A xs)
     = map (\<lambda>x. A x \<or> (\<exists>q \<in> set qs. P q x)) xs"
proof (induction qs arbitrary: A)
  case Nil
  then show ?case by simp
next
  case (Cons q qs)
  have "fold (map2 (\<or>)) (map (\<lambda>q. map (P q) xs) (q # qs)) (map A xs)
        = fold (map2 (\<or>)) (map (\<lambda>q. map (P q) xs) qs) (map (\<lambda>x. P q x \<or> A x) xs)"
    by (simp add: map2_or_map)
  also have "\<dots> = map (\<lambda>x. (P q x \<or> A x) \<or> (\<exists>q \<in> set qs. P q x)) xs"
    by (rule Cons.IH)
  finally show ?case by (simp add: disj_ac)
qed

lemma any_axis0_rows:
  "any_axis0 (length xs) (map (\<lambda>q. map (P q) xs) qs) = map (\<lambda>x. \<exists>q \<in> set qs. P q x) xs"
  by (simp add: any_axis0_def replicate_False_map fold_or_rows)

lemma logical_and_ones:
  "logical_and (replicate (length xs) True) (map P xs) = map P xs"
  by (simp add: replicate_True_map logical_and_map)

lemma column_complete:
  "list_all (\<lambda>x. x \<noteq> None) (column_contains (map f df) match_chars)
     = list_all (\<lambda>q. f q \<noteq> None) df"
  by (simp add: column_contains_def list_all_iff)

lemma column_values:
  "list_all (\<lambda>q. f q \<noteq> None) df \<Longrightarrow>
   map the (column_contains (map f df) match_chars)
     = map (\<lambda>q. has_match_chars (code_text (f q))) df"
  by (auto simp: column_contains_def has_match_chars_def code_text_def list_all_iff)

lemma columns_complete:
  "list_all (list_all (\<lambda>x. x \<noteq> None))
     [column_contains (map req_network df) match_chars,
      column_contains (map req_station df) match_chars,
      column_contains (map req_location df) match_chars,
      column_contains (map req_channel df) match_chars]
   = list_all complete_request df"
proof -
  have "(list_all (\<lambda>q. req_network q \<noteq> None) df \<and> list_all (\<lambda>q. req_station q \<noteq> None) df
         \<and> list_all (\<lambda>q. req_location q \<noteq> None) df \<and> list_all (\<lambda>q. req_channel q \<noteq> None) df)
        = list_all complete_request df"
    by (auto simp: complete_request_def list_all_iff)
  then show ?thesis
    by (simp only: list.pred_inject column_complete simp_thms)
qed

lemma request_mask_complete:
  assumes "list_all complete_request df"
  shows "request_mask (length df)
           [column_contains (map req_network df) match_chars,
            column_contains (map req_station df) match_chars,
            column_contains (map req_location df) match_chars,
            column_contains (map req_channel df) match_chars]
         = Inr (map wildcard_request df)"
proof -
  from assms have present:
    "list_all (\<lambda>q. req_network q \<noteq> None) df" "list_all (\<lambda>q. req_station q \<noteq> None) df"
    "list_all (\<lambda>q. req_location q \<noteq> None) df" "list_all (\<lambda>q. req_channel q \<noteq> None) df"
    by (simp_all add: complete_request_def list_all_iff)
  have "any_axis0 (length df)
          (map (\<lambda>f. map (\<lambda>q. has_match_chars (code_text (f q))) df)
             [req_network, req_station, req_location, req_channel])
        = map (\<lambda>q. \<exists>f \<in> set [req_network, req_station, req_location, req_channel].
                     has_match_chars (code_text (f q))) df"
    by (rule any_axis0_rows)
  then have any: "any_axis0 (length df)
          [map (\<lambda>q. has_match_chars (code_text (req_network q))) df,
           map (\<lambda>q. has_match_chars (code_text (req_station q))) df,
           map (\<lambda>q. has_match_chars (code_text (req_location q))) df,
           map (\<lambda>q. has_match_chars (code_text (req_channel q))) df]
        = map wildcard_request df"
    by (simp add: wildcard_request_def disj_ac)
  show ?thesis
    unfolding request_mask_def columns_complete
    using assms
    by (simp only: if_True list.map column_values [OF present(1)] column_values [OF present(2)]
        column_values [OF present(3)] column_values [OF present(4)] any)
qed

lemma request_mask_incomplete:
  assumes "\<not> list_all complete_request df"
  shows "request_mask (length df)
           [column_contains (map req_network df) match_chars,
            column_contains (map req_station df) match_chars,
            column_contains (map req_location df) match_chars,
            column_contains (map req_channel df) match_chars]
         = Inl IndexingError"
  unfolding request_mask_def columns_complete
  using assms by (simp only: if_False)

lemma replace_empty_text: "replace_empty v = dashes_to_empty (code_text v)"
  by (simp add: replace_empty_def dashes_to_empty_def code_text_def split: option.splits)

lemma get_nslc_ids:
  "get_nslc df
     = map (\<lambda>(n, s, l, c). exact_id (code_text n) (code_text s) (code_text l) (code_text c)) df"
  by (simp add: get_nslc_def exact_id_def replace_empty_text)

lemma get_nslc_index: "get_nslc (index_codes ind) = map row_id ind"
  by (simp add: get_nslc_ids index_codes_def row_id_def code_text_def comp_def)

lemma get_nslc_bulk: "get_nslc (bulk_codes df) = map request_id df"
  by (simp add: get_nslc_ids bulk_codes_def request_id_def comp_def)

lemma filter_index_request:
  "complete_request q \<Longrightarrow>
   filter_index ind (code_filter_of (req_network q)) (code_filter_of (req_station q))
     (code_filter_of (req_location q)) (code_filter_of (req_channel q)) None None
   = map (request_pass q) ind"
  by (auto simp: filter_index_codes complete_request_def code_filter_of_def row_pass_def
      code_pass_def request_pass_def code_text_def)

lemma bulk_rows_filter:
  "bulk_rows time ind bulk
     = (let df = filter (\<lambda>q. req_t1 q = fst time \<and> req_t2 q = snd time) bulk;
            df_match = filter wildcard_request df;
            df_no_match = filter (\<lambda>q. \<not> wildcard_request q) df
        in if list_all complete_request df
           then Inr (filter (\<lambda>r. (df_match = [] \<or> (\<exists>q \<in> set df_match. request_pass q r))
                               \<and> (df_no_match = []
                                    \<or> (\<exists>q \<in> set df_no_match. row_id r = request_id q)))
                      ind)
           else Inl IndexingError)"
proof (cases "list_all complete_request
                (filter (\<lambda>q. req_t1 q = fst time \<and> req_t2 q = snd time) bulk)")
  case False
  then show ?thesis
    by (simp add: bulk_rows_def Let_def request_mask_incomplete)
next
  case True
  let ?df = "filter (\<lambda>q. req_t1 q = fst time \<and> req_t2 q = snd time) bulk"
  let ?dm = "filter wildcard_request ?df"
  let ?dn = "filter (\<lambda>q. \<not> wildcard_request q) ?df"
  have dm: "select_rows ?df (map wildcard_request ?df) = ?dm"
    by (rule select_rows_map)
  have dn: "select_rows ?df (map Not (map wildcard_request ?df)) = ?dn"
    using select_rows_map [of ?df "\<lambda>q. \<not> wildcard_request q"] by (simp add: comp_def)
  have "map (\<lambda>q. filter_index ind (code_filter_of (req_network q))
                   (code_filter_of (req_station q)) (code_filter_of (req_location q))
                   (code_filter_of (req_channel q)) None None) ?dm
        = map (\<lambda>q. map (request_pass q) ind) ?dm"
    using True by (intro map_cong refl filter_index_request) (simp add: list_all_iff)
  then have mar: "any_axis0 (length ind)
               (map (\<lambda>q. filter_index ind (code_filter_of (req_network q))
                   (code_filter_of (req_station q)) (code_filter_of (req_location q))
                   (code_filter_of (req_channel q)) None None) ?dm)
             = map (\<lambda>r. \<exists>q \<in> set ?dm. request_pass q r) ind"
    by (simp only: any_axis0_rows)
  have ids: "map (\<lambda>v. v \<in> set (get_nslc (bulk_codes ?dn))) (get_nslc (index_codes ind))
             = map (\<lambda>r. \<exists>q \<in> set ?dn. row_id r = request_id q) ind"
    by (auto simp: get_nslc_index get_nslc_bulk)
  show ?thesis
    unfolding bulk_rows_def Let_def request_mask_complete [OF True] sum.case dm dn mar ids
    using True
    by (cases "?dm = []"; cases "?dn = []")
      (simp_all add: logical_and_ones replicate_True_map logical_and_map select_rows_map)
qed













lemma mk_req_sel:
  "req_network (mk_req net sta loc chan t1 t2) = Some net"
  "req_station (mk_req net sta loc chan t1 t2) = Some sta"
  "req_location (mk_req net sta loc chan t1 t2) = Some loc"
  "req_channel (mk_req net sta loc chan t1 t2) = Some chan"
  "req_t1 (mk_req net sta loc chan t1 t2) = t1"
  "req_t2 (mk_req net sta loc chan t1 t2) = t2"
  by (simp_all add: mk_req_def)

lemma mk_req_complete: "complete_request (mk_req net sta loc chan t1 t2)"
  by (simp add: complete_request_def mk_req_def)


text \<open>
  C9, as stated, fails for a code \<^verbatim>\<open>None\<close> in a request: the mask over the request frame
  is then not boolean and \<open>bulk_rows\<close> raises before the seed identifiers are compared,
  where the request with the empty location selects the row.
\<close>

theorem bulk_none_code_counterexample:
  "bulk_rows (0, 10) [mk_row ''UU'' ''A1'' [] ''HHZ'' 0 10 ''f1'']
     [\<lparr>req_network = Some ''UU'', req_station = Some ''A1'', req_location = None,
       req_channel = Some ''HHZ'', req_t1 = 0, req_t2 = 10\<rparr>]
   = Inl IndexingError
   \<and> bulk_rows (0, 10) [mk_row ''UU'' ''A1'' [] ''HHZ'' 0 10 ''f1'']
     [mk_req ''UU'' ''A1'' [] ''HHZ'' 0 10]
   = Inr [mk_row ''UU'' ''A1'' [] ''HHZ'' 0 10 ''f1'']"
  by (auto simp: bulk_rows_def Let_def column_contains_def request_mask_def match_chars_def
      any_axis0_def select_rows_def logical_and_def get_nslc_def index_codes_def bulk_codes_def
      replace_empty_def mk_row_def mk_req_def)

text \<open>
  C9, amended. In the bulk path the requests whose four codes are strings without a
  wildcard character are resolved by one membership test on seed identifiers, and
  \<open>get_nslc\<close> replaces, in each of the four columns, the code \<^verbatim>\<open>"--"\<close> (and a missing code)
  by the empty string on both sides of that test: a row is selected when its identifier
  after the replacement is the one of an exact request after the replacement. So an
  exact request with the location \<^verbatim>\<open>"--"\<close> selects a row with the empty location, and an
  exact request with the empty location selects a row with the location \<^verbatim>\<open>"--"\<close>, and
  likewise in the other three columns. The requests with a wildcard character go through
  the patterns of \<open>filter_index\<close>, as the single request path does, where \<^verbatim>\<open>"--"\<close> is matched
  as it stands.
\<close>

theorem bulk_exact_requests_replace_dashes:
  "get_nslc df
     = map (\<lambda>(n, s, l, c). exact_id (code_text n) (code_text s) (code_text l) (code_text c)) df
   \<and> (list_all complete_request
         (filter (\<lambda>q. req_t1 q = fst time \<and> req_t2 q = snd time) bulk) \<longrightarrow>
       bulk_rows time ind bulk
         = (let df = filter (\<lambda>q. req_t1 q = fst time \<and> req_t2 q = snd time) bulk;
                df_match = filter wildcard_request df;
                df_no_match = filter (\<lambda>q. \<not> wildcard_request q) df
            in Inr (filter (\<lambda>r. (df_match = [] \<or> (\<exists>q \<in> set df_match. request_pass q r))
                               \<and> (df_no_match = []
                                    \<or> (\<exists>q \<in> set df_no_match. row_id r = request_id q)))
                      ind)))
   \<and> bulk_rows (0, 10) [mk_row ''UU'' ''A1'' [] ''HHZ'' 0 10 ''f1'']
        [mk_req ''UU'' ''A1'' ''--'' ''HHZ'' 0 10]
       = Inr [mk_row ''UU'' ''A1'' [] ''HHZ'' 0 10 ''f1'']
   \<and> bulk_rows (0, 10) [mk_row ''UU'' ''A1'' ''--'' ''HHZ'' 0 10 ''f1'']
        [mk_req ''UU'' ''A1'' [] ''HHZ'' 0 10]
       = Inr [mk_row ''UU'' ''A1'' ''--'' ''HHZ'' 0 10 ''f1'']
   \<and> bulk_rows (0, 10) [mk_row [] [] ''00'' [] 0 10 ''f1'']
        [mk_req ''--'' ''--'' ''00'' ''--'' 0 10]
       = Inr [mk_row [] [] ''00'' [] 0 10 ''f1'']
   \<and> bulk_rows (0, 10) [mk_row ''--'' ''--'' ''00'' ''--'' 0 10 ''f1'']
        [mk_req [] [] ''00'' [] 0 10]
       = Inr [mk_row ''--'' ''--'' ''00'' ''--'' 0 10 ''f1'']
   \<and> bulk_rows (0, 10) [mk_row ''UU'' ''A1'' [] ''HHZ'' 0 10 ''f1'']
        [mk_req ''UU'' ''A*'' ''--'' ''HHZ'' 0 10]
       = Inr []
   \<and> filter_index [mk_row ''UU'' ''A1'' [] ''HHZ'' 0 10 ''f1''] (Pattern ''UU'') (Pattern ''A1'')
        (Pattern ''--'') (Pattern ''HHZ'') None None
       = [False]"
proof (intro conjI impI)
  show "get_nslc df
     = map (\<lambda>(n, s, l, c). exact_id (code_text n) (code_text s) (code_text l) (code_text c)) df"
    by (rule get_nslc_ids)
  show "bulk_rows time ind bulk
         = (let df = filter (\<lambda>q. req_t1 q = fst time \<and> req_t2 q = snd time) bulk;
                df_match = filter wildcard_request df;
                df_no_match = filter (\<lambda>q. \<not> wildcard_request q) df
            in Inr (filter (\<lambda>r. (df_match = [] \<or> (\<exists>q \<in> set df_match. request_pass q r))
                               \<and> (df_no_match = []
                                    \<or> (\<exists>q \<in> set df_no_match. row_id r = request_id q)))
                      ind))"
    if "list_all complete_request
         (filter (\<lambda>q. req_t1 q = fst time \<and> req_t2 q = snd time) bulk)"
    using that by (simp add: bulk_rows_filter Let_def)
  show "bulk_rows (0, 10) [mk_row ''UU'' ''A1'' [] ''HHZ'' 0 10 ''f1'']
        [mk_req ''UU'' ''A1'' ''--'' ''HHZ'' 0 10]
       = Inr [mk_row ''UU'' ''A1'' [] ''HHZ'' 0 10 ''f1'']"
    by (auto simp: bulk_rows_def Let_def column_contains_def request_mask_def match_chars_def
        any_axis0_def select_rows_def logical_and_def get_nslc_def index_codes_def bulk_codes_def
        replace_empty_def mk_row_def mk_req_def)
  show "bulk_rows (0, 10) [mk_row ''UU'' ''A1'' ''--'' ''HHZ'' 0 10 ''f1'']
        [mk_req ''UU'' ''A1'' [] ''HHZ'' 0 10]
       = Inr [mk_row ''UU'' ''A1'' ''--'' ''HHZ'' 0 10 ''f1'']"
    by (auto simp: bulk_rows_def Let_def column_contains_def request_mask_def match_chars_def
        any_axis0_def select_rows_def logical_and_def get_nslc_def index_codes_def bulk_codes_def
        replace_empty_def mk_row_def mk_req_def)
  show "bulk_rows (0, 10) [mk_row [] [] ''00'' [] 0 10 ''f1'']
        [mk_req ''--'' ''--'' ''00'' ''--'' 0 10]
       = Inr [mk_row [] [] ''00'' [] 0 10 ''f1'']"
    by (auto simp: bulk_rows_def Let_def column_contains_def request_mask_def match_chars_def
        any_axis0_def select_rows_def logical_and_def get_nslc_def index_codes_def bulk_codes_def
        replace_empty_def mk_row_def mk_req_def)
  show "bulk_rows (0, 10) [mk_row ''--'' ''--'' ''00'' ''--'' 0 10 ''f1'']
        [mk_req [] [] ''00'' [] 0 10]
       = Inr [mk_row ''--'' ''--'' ''00'' ''--'' 0 10 ''f1'']"
    by (auto simp: bulk_rows_def Let_def column_contains_def request_mask_def match_chars_def
        any_axis0_def select_rows_def logical_and_def get_nslc_def index_codes_def bulk_codes_def
        replace_empty_def mk_row_def mk_req_def)
  show "bulk_rows (0, 10) [mk_row ''UU'' ''A1'' [] ''HHZ'' 0 10 ''f1'']
        [mk_req ''UU'' ''A*'' ''--'' ''HHZ'' 0 10]
       = Inr []"
    by (auto simp: bulk_rows_def Let_def column_contains_def request_mask_def match_chars_def
        any_axis0_def select_rows_def logical_and_def filter_index_def apply_filter_def
        get_regex_def code_filter_of_def mk_row_def mk_req_def)
  show "filter_index [mk_row ''UU'' ''A1'' [] ''HHZ'' 0 10 ''f1''] (Pattern ''UU'') (Pattern ''A1'')
        (Pattern ''--'') (Pattern ''HHZ'') None None
       = [False]"
    by (simp add: filter_index_def apply_filter_def logical_and_def get_regex_def mk_row_def)
qed

theorem bulk_exact_requests_replace_dashes_witness:
  "bulk_rows (0, 10)
     [mk_row ''UU'' ''A1'' [] ''HHZ'' 0 10 ''f1'', mk_row [] ''B1'' ''00'' ''HHZ'' 0 10 ''f2'',
      mk_row ''UU'' ''C1'' ''--'' ''HHZ'' 0 10 ''f3'', mk_row ''UU'' ''--'' ''00'' [] 0 10 ''f4'']
     [mk_req ''UU'' ''A1'' ''--'' ''HHZ'' 0 10, mk_req ''--'' ''B1'' ''00'' ''HHZ'' 0 10,
      mk_req ''UU'' ''C1'' ''01'' ''HHZ'' 0 10, mk_req ''UU'' [] ''00'' ''--'' 0 10,
      mk_req ''UU'' ''A1'' [] ''HHZ'' 5 10]
   = Inr [mk_row ''UU'' ''A1'' [] ''HHZ'' 0 10 ''f1'', mk_row [] ''B1'' ''00'' ''HHZ'' 0 10 ''f2'',
          mk_row ''UU'' ''--'' ''00'' [] 0 10 ''f4'']"
proof -
  let ?ind = "[mk_row ''UU'' ''A1'' [] ''HHZ'' 0 10 ''f1'', mk_row [] ''B1'' ''00'' ''HHZ'' 0 10 ''f2'',
      mk_row ''UU'' ''C1'' ''--'' ''HHZ'' 0 10 ''f3'', mk_row ''UU'' ''--'' ''00'' [] 0 10 ''f4'']"
  let ?df = "[mk_req ''UU'' ''A1'' ''--'' ''HHZ'' 0 10, mk_req ''--'' ''B1'' ''00'' ''HHZ'' 0 10,
      mk_req ''UU'' ''C1'' ''01'' ''HHZ'' 0 10, mk_req ''UU'' [] ''00'' ''--'' 0 10]"
  let ?bulk = "?df @ [mk_req ''UU'' ''A1'' [] ''HHZ'' 5 10]"
  have df: "filter (\<lambda>q. req_t1 q = fst (0 :: real, 10 :: real) \<and> req_t2 q = snd (0 :: real, 10 :: real))
              ?bulk = ?df"
    by (simp add: mk_req_sel)
  have complete: "list_all complete_request ?df"
    by (simp add: mk_req_complete)
  have exact: "\<not> wildcard_request (mk_req ''UU'' ''A1'' ''--'' ''HHZ'' 0 10)"
    "\<not> wildcard_request (mk_req ''--'' ''B1'' ''00'' ''HHZ'' 0 10)"
    "\<not> wildcard_request (mk_req ''UU'' ''C1'' ''01'' ''HHZ'' 0 10)"
    "\<not> wildcard_request (mk_req ''UU'' [] ''00'' ''--'' 0 10)"
    by (simp_all add: wildcard_request_def has_match_chars_def match_chars_def mk_req_sel
        code_text_def)
  have dm: "filter wildcard_request ?df = []"
    by (simp add: exact)
  have dn: "filter (\<lambda>q. \<not> wildcard_request q) ?df = ?df"
    by (simp add: exact)
  have ids: "request_id (mk_req ''UU'' ''A1'' ''--'' ''HHZ'' 0 10) = ''UU.A1..HHZ''"
    "request_id (mk_req ''--'' ''B1'' ''00'' ''HHZ'' 0 10) = ''.B1.00.HHZ''"
    "request_id (mk_req ''UU'' ''C1'' ''01'' ''HHZ'' 0 10) = ''UU.C1.01.HHZ''"
    "request_id (mk_req ''UU'' [] ''00'' ''--'' 0 10) = ''UU..00.''"
    "row_id (mk_row ''UU'' ''A1'' [] ''HHZ'' 0 10 ''f1'') = ''UU.A1..HHZ''"
    "row_id (mk_row [] ''B1'' ''00'' ''HHZ'' 0 10 ''f2'') = ''.B1.00.HHZ''"
    "row_id (mk_row ''UU'' ''C1'' ''--'' ''HHZ'' 0 10 ''f3'') = ''UU.C1..HHZ''"
    "row_id (mk_row ''UU'' ''--'' ''00'' [] 0 10 ''f4'') = ''UU..00.''"
    by (simp_all add: request_id_def row_id_def exact_id_def dashes_to_empty_def code_text_def
        mk_req_sel mk_row_def)
  note step = bulk_exact_requests_replace_dashes
    [where time = "(0, 10)" and bulk = ?bulk and ind = ?ind, THEN conjunct2, THEN conjunct1,
      THEN mp]
  have "list_all complete_request
         (filter (\<lambda>q. req_t1 q = fst (0 :: real, 10 :: real) \<and> req_t2 q = snd (0 :: real, 10 :: real))
            ?bulk)"
    unfolding df by (rule complete)
  from step [OF this]
  have "bulk_rows (0, 10) ?ind ?bulk
      = Inr (filter (\<lambda>r. \<exists>q \<in> set ?df. row_id r = request_id q) ?ind)"
    unfolding df Let_def dm dn by simp
  then show ?thesis
    by (simp add: ids)
qed




end
